theory Spec2Isabelle
  imports Main "HOL-Library.List_Lexorder" "HOL-Library.Char_ord"
    "HOL-Library.Product_Lexorder" "HOL-Library.Multiset"
begin

section \<open>TerminalRewind: command ledger, change tracking and rollback\<close>

text \<open>
  A shallow embedding of \<^verbatim>\<open>terminalrewind.py\<close>: the SQLite ledger
  (\<^verbatim>\<open>TerminalRewindDB\<close>), the snapshot differ (\<^verbatim>\<open>FileTracker\<close>) and the
  rollback engine (\<^verbatim>\<open>RollbackManager\<close>). SQL tables are lists of rows in insertion
  order, \<^verbatim>\<open>NULL\<close> and Python's \<^verbatim>\<open>None\<close> are \<open>None\<close>, and every read of the clock, the
  environment or the disk is an explicit argument.
\<close>

subsection \<open>Python values\<close>

text \<open>
  Python tests an \<^verbatim>\<open>Optional[str]\<close> argument with \<^verbatim>\<open>if arg:\<close>, which is false on
  \<^verbatim>\<open>None\<close> and on the empty string. \<open>supplied\<close> gives the text when the test passes.
\<close>

definition supplied :: "string option \<Rightarrow> string option" where
  "supplied s = (case s of None \<Rightarrow> None | Some x \<Rightarrow> if x = [] then None else Some x)"

subsection \<open>The ledger: tables\<close>

text \<open>
  Table \<^verbatim>\<open>commands\<close>. The column \<^verbatim>\<open>created_at\<close> is filled by SQLite and never read;
  \<^verbatim>\<open>tags\<close> holds the list that \<^verbatim>\<open>json.dumps\<close> would serialise.
\<close>

record command =
  cmd_id :: nat
  cmd_session_id :: string
  cmd_timestamp :: string
  cmd_command :: string
  cmd_cwd :: string
  cmd_exit_code :: "int option"
  cmd_output :: "string option"
  cmd_error_output :: "string option"
  cmd_duration_ms :: "int option"
  cmd_platform :: string
  cmd_shell :: string
  cmd_user :: string
  cmd_hostname :: string
  cmd_tags :: "string list option"
  cmd_notes :: "string option"

text \<open>Table \<^verbatim>\<open>file_changes\<close>; \<^verbatim>\<open>change_type\<close> is free text in the schema.\<close>

record file_change =
  fc_id :: nat
  fc_command_id :: nat
  fc_file_path :: string
  fc_change_type :: string
  fc_old_hash :: "string option"
  fc_new_hash :: "string option"
  fc_old_size :: "int option"
  fc_new_size :: "int option"
  fc_backup_path :: "string option"

text \<open>Table \<^verbatim>\<open>sessions\<close>; the three counters are \<^verbatim>\<open>INTEGER DEFAULT 0\<close>.\<close>

record session =
  s_id :: string
  s_name :: "string option"
  s_description :: "string option"
  s_started_at :: string
  s_ended_at :: "string option"
  s_command_count :: int
  s_success_count :: int
  s_error_count :: int
  s_cwd_start :: "string option"
  s_agent_name :: "string option"
  s_metadata :: "string option"

text \<open>A row of the index \<^verbatim>\<open>commands_fts\<close>: rowid, command, output.\<close>

type_synonym fts_row = "nat \<times> string \<times> string"

record db =
  commands :: "command list"
  commands_fts :: "fts_row list"
  file_changes :: "file_change list"
  sessions :: "session list"

definition empty_db :: db where
  "empty_db = \<lparr>commands = [], commands_fts = [], file_changes = [], sessions = []\<rparr>"

text \<open>What \<^verbatim>\<open>record_command\<close> and \<^verbatim>\<open>start_session\<close> read from the process.\<close>

record environ =
  env_now :: string
  env_cwd :: string
  env_platform :: string
  env_shell :: string
  env_user :: string
  env_hostname :: string

subsection \<open>The ledger: writes\<close>

text \<open>
  \<^verbatim>\<open>INTEGER PRIMARY KEY AUTOINCREMENT\<close>: one more than the largest id ever used;
  no row is ever deleted, so that is the largest id in the table.
\<close>

definition next_id :: "nat list \<Rightarrow> nat" where
  "next_id ids = Suc (foldr max ids 0)"

text \<open>
  The \<^verbatim>\<open>UPDATE sessions ... WHERE id = ?\<close> of \<^verbatim>\<open>record_command\<close>, on one row.
  \<^verbatim>\<open>CASE WHEN ? = 0\<close> and \<^verbatim>\<open>CASE WHEN ? != 0\<close> are both not true on \<^verbatim>\<open>NULL\<close>.
\<close>

definition update_session_stats :: "int option \<Rightarrow> string \<Rightarrow> session \<Rightarrow> session" where
  "update_session_stats exit_code session_id s =
     (if s_id s = session_id then
        s\<lparr>s_command_count := s_command_count s + 1,
          s_success_count := s_success_count s
             + (case exit_code of Some n \<Rightarrow> (if n = 0 then 1 else 0) | None \<Rightarrow> 0),
          s_error_count := s_error_count s
             + (case exit_code of Some n \<Rightarrow> (if n \<noteq> 0 then 1 else 0) | None \<Rightarrow> 0)\<rparr>
      else s)"

definition record_command ::
  "environ \<Rightarrow> db \<Rightarrow> string \<Rightarrow> string \<Rightarrow> string \<Rightarrow> int option \<Rightarrow> string option \<Rightarrow>
   string option \<Rightarrow> int option \<Rightarrow> string list option \<Rightarrow> string option \<Rightarrow> nat \<times> db" where
  "record_command env d session_id cmd cwd exit_code output error_output duration_ms tags notes =
     (let command_id = next_id (map cmd_id (commands d));
          row = \<lparr>cmd_id = command_id, cmd_session_id = session_id,
                 cmd_timestamp = env_now env, cmd_command = cmd, cmd_cwd = cwd,
                 cmd_exit_code = exit_code, cmd_output = output,
                 cmd_error_output = error_output, cmd_duration_ms = duration_ms,
                 cmd_platform = env_platform env, cmd_shell = env_shell env,
                 cmd_user = env_user env, cmd_hostname = env_hostname env,
                 cmd_tags = (case tags of None \<Rightarrow> None | Some ts \<Rightarrow> if ts = [] then None else Some ts),
                 cmd_notes = notes\<rparr>
      in (command_id,
          d\<lparr>commands := commands d @ [row],
            commands_fts := commands_fts d
               @ [(command_id, cmd, (case output of None \<Rightarrow> [] | Some out \<Rightarrow> out))],
            sessions := map (update_session_stats exit_code session_id) (sessions d)\<rparr>))"

text \<open>
  A run of \<^verbatim>\<open>record_command\<close> calls into one session, one call for each entry
  (the process state at the call, the command text, the exit code); the working
  directory is the current one and the other arguments keep their default \<^verbatim>\<open>None\<close>.
\<close>

fun record_commands :: "db \<Rightarrow> string \<Rightarrow> (environ \<times> string \<times> int option) list \<Rightarrow> db" where
  "record_commands d session_id [] = d"
| "record_commands d session_id ((env, cmd, exit_code) # rest) =
     record_commands
       (snd (record_command env d session_id cmd (env_cwd env) exit_code None None None None None))
       session_id rest"

definition record_file_change ::
  "db \<Rightarrow> nat \<Rightarrow> string \<Rightarrow> string \<Rightarrow> string option \<Rightarrow> string option \<Rightarrow> int option \<Rightarrow>
   int option \<Rightarrow> string option \<Rightarrow> db" where
  "record_file_change d command_id file_path change_type old_hash new_hash old_size new_size
       backup_path =
     d\<lparr>file_changes := file_changes d @
        [\<lparr>fc_id = next_id (map fc_id (file_changes d)), fc_command_id = command_id,
          fc_file_path = file_path, fc_change_type = change_type, fc_old_hash = old_hash,
          fc_new_hash = new_hash, fc_old_size = old_size, fc_new_size = new_size,
          fc_backup_path = backup_path\<rparr>]\<rparr>"

text \<open>
  \<^verbatim>\<open>INSERT OR REPLACE INTO sessions (id, name, description, started_at, cwd_start,
  agent_name, metadata)\<close>: a row with the same primary key is deleted, and the new row
  takes the schema's defaults in every column the statement does not name
  (\<^verbatim>\<open>ended_at\<close> is \<^verbatim>\<open>NULL\<close>, the three counters are 0). The metadata argument is the
  text \<^verbatim>\<open>json.dumps\<close> gives, or \<open>None\<close> for an empty or missing dict.
\<close>

definition start_session ::
  "environ \<Rightarrow> db \<Rightarrow> string \<Rightarrow> string option \<Rightarrow> string option \<Rightarrow> string option \<Rightarrow>
   string option \<Rightarrow> string \<times> db" where
  "start_session env d session_id name description agent_name metadata =
     (session_id,
      d\<lparr>sessions := filter (\<lambda>s. s_id s \<noteq> session_id) (sessions d) @
        [\<lparr>s_id = session_id, s_name = name, s_description = description,
          s_started_at = env_now env, s_ended_at = None, s_command_count = 0,
          s_success_count = 0, s_error_count = 0, s_cwd_start = Some (env_cwd env),
          s_agent_name = agent_name, s_metadata = metadata\<rparr>]\<rparr>)"

definition end_session :: "environ \<Rightarrow> db \<Rightarrow> string \<Rightarrow> db" where
  "end_session env d session_id =
     d\<lparr>sessions := map (\<lambda>s. if s_id s = session_id then s\<lparr>s_ended_at := Some (env_now env)\<rparr> else s)
                      (sessions d)\<rparr>"

subsection \<open>The ledger: reads\<close>

definition get_session :: "db \<Rightarrow> string \<Rightarrow> session option" where
  "get_session d session_id = find (\<lambda>s. s_id s = session_id) (sessions d)"

definition get_file_changes :: "db \<Rightarrow> nat \<Rightarrow> file_change list" where
  "get_file_changes d command_id = filter (\<lambda>fc. fc_command_id fc = command_id) (file_changes d)"

text \<open>\<^verbatim>\<open>AND exit_code != 0\<close>: not true on \<^verbatim>\<open>NULL\<close>.\<close>

definition exit_code_nonzero :: "command \<Rightarrow> bool" where
  "exit_code_nonzero c = (case cmd_exit_code c of None \<Rightarrow> False | Some n \<Rightarrow> n \<noteq> 0)"









text \<open>
  \<^verbatim>\<open>get_stats\<close>. Python's float arithmetic is taken as given: true division of two
  ints, multiplication of a float by an int, and \<^verbatim>\<open>round(x, ndigits)\<close>. The value of
  \<^verbatim>\<open>success_rate\<close> is the int \<^verbatim>\<open>0\<close> or a float. The two entries about the database file
  (\<^verbatim>\<open>database_path\<close>, \<^verbatim>\<open>database_size_kb\<close>) are left out.
\<close>

record 'f float_ops =
  truediv :: "int \<Rightarrow> int \<Rightarrow> 'f"
  mul_int :: "'f \<Rightarrow> int \<Rightarrow> 'f"
  round_ndigits :: "'f \<Rightarrow> int \<Rightarrow> 'f"

datatype 'f py_number = PyInt int | PyFloat 'f

record 'f stats =
  total_commands :: int
  successful_commands :: int
  failed_commands :: int
  success_rate :: "'f py_number"
  total_sessions :: int
  total_file_changes :: int

definition get_stats :: "'f float_ops \<Rightarrow> db \<Rightarrow> 'f stats" where
  "get_stats fl d =
     (let total = int (length (commands d));
          successful = int (length (filter (\<lambda>c. cmd_exit_code c = Some 0) (commands d)));
          failed = int (length (filter exit_code_nonzero (commands d)))
      in \<lparr>total_commands = total,
          successful_commands = successful,
          failed_commands = failed,
          success_rate =
            (if total > 0
             then PyFloat (round_ndigits fl (mul_int fl (truediv fl successful total) 100) 1)
             else PyInt 0),
          total_sessions = int (length (sessions d)),
          total_file_changes = int (length (file_changes d))\<rparr>)"

subsection \<open>The disk\<close>

text \<open>
  The platform the rollback engine runs on: a state of the disk, of a type the model
  leaves open, together with the behaviour of the four calls the code makes on it.
  \<^verbatim>\<open>Path.exists()\<close> answers of a state. \<^verbatim>\<open>Path.unlink()\<close> either raises and leaves the
  state, or gives the next state. \<^verbatim>\<open>original.parent.mkdir(parents=True, exist_ok=True)\<close>
  and \<^verbatim>\<open>shutil.copy2\<close> do their work in steps and may raise after some of them (parents
  created, bytes written), so they give the exception, if any, and the state they
  leave. The calls raise nothing but an \<^verbatim>\<open>OSError\<close>, which carries its text \<^verbatim>\<open>str(e)\<close>.
\<close>

datatype os_error = OSError (str_exc: string)

record 's filesystem =
  contents :: 's
  sys_exists :: "'s \<Rightarrow> string \<Rightarrow> bool"
  sys_unlink :: "'s \<Rightarrow> string \<Rightarrow> os_error + 's"
  sys_mkdir_parent :: "'s \<Rightarrow> string \<Rightarrow> os_error option \<times> 's"
  sys_copy2 :: "'s \<Rightarrow> string \<Rightarrow> string \<Rightarrow> os_error option \<times> 's"

definition path_exists :: "'s filesystem \<Rightarrow> string \<Rightarrow> bool" where
  "path_exists fs p = sys_exists fs (contents fs) p"

definition unlink :: "'s filesystem \<Rightarrow> string \<Rightarrow> os_error + 's filesystem" where
  "unlink fs p =
     (case sys_unlink fs (contents fs) p of
        Inl e \<Rightarrow> Inl e
      | Inr s \<Rightarrow> Inr (fs\<lparr>contents := s\<rparr>))"

definition mkdir_parent :: "'s filesystem \<Rightarrow> string \<Rightarrow> os_error option \<times> 's filesystem" where
  "mkdir_parent fs p =
     (case sys_mkdir_parent fs (contents fs) p of (e, s) \<Rightarrow> (e, fs\<lparr>contents := s\<rparr>))"

definition copy2 ::
  "'s filesystem \<Rightarrow> string \<Rightarrow> string \<Rightarrow> os_error option \<times> 's filesystem" where
  "copy2 fs src dst =
     (case sys_copy2 fs (contents fs) src dst of (e, s) \<Rightarrow> (e, fs\<lparr>contents := s\<rparr>))"

text \<open>
  \<^verbatim>\<open>FileTracker.restore_file\<close>: \<^verbatim>\<open>False\<close> without touching the disk when the backup does
  not exist; otherwise the parents of the destination are made and the backup is
  copied over it, and an \<^verbatim>\<open>OSError\<close> of either call is caught and answered \<^verbatim>\<open>False\<close>,
  with the disk as the failed call left it.
\<close>

definition restore_file :: "'s filesystem \<Rightarrow> string \<Rightarrow> string \<Rightarrow> bool \<times> 's filesystem" where
  "restore_file fs backup_path original_path =
     (if \<not> path_exists fs backup_path then (False, fs)
      else (case mkdir_parent fs original_path of
              (Some e, fs') \<Rightarrow> (False, fs')
            | (None, fs') \<Rightarrow>
                (case copy2 fs' backup_path original_path of
                   (Some e, fs'') \<Rightarrow> (False, fs'')
                 | (None, fs'') \<Rightarrow> (True, fs''))))"

subsection \<open>The rollback engine\<close>

text \<open>
  The loop of \<^verbatim>\<open>can_rollback\<close>: the reason of the first record that fails a check,
  in the order \<^verbatim>\<open>get_file_changes\<close> returns the records, or \<open>None\<close> when all pass.
  \<^verbatim>\<open>not fc.get('backup_path')\<close> holds for \<^verbatim>\<open>NULL\<close> and for the empty text.
\<close>

fun check_backups :: "'s filesystem \<Rightarrow> file_change list \<Rightarrow> string option" where
  "check_backups fs [] = None"
| "check_backups fs (fc # fcs) =
     (if fc_change_type fc = ''modified'' \<or> fc_change_type fc = ''deleted'' then
        (case supplied (fc_backup_path fc) of
           None \<Rightarrow> Some (''No backup available for '' @ fc_file_path fc)
         | Some b \<Rightarrow>
             if \<not> path_exists fs b then Some (''Backup file missing for '' @ fc_file_path fc)
             else check_backups fs fcs)
      else check_backups fs fcs)"

definition can_rollback :: "db \<Rightarrow> 's filesystem \<Rightarrow> nat \<Rightarrow> bool \<times> string" where
  "can_rollback d fs command_id =
     (let fcs = get_file_changes d command_id
      in if fcs = [] then (False, ''No file changes recorded for this command'')
         else (case check_backups fs fcs of
                 Some reason \<Rightarrow> (False, reason)
               | None \<Rightarrow> (True, ''Rollback is possible'')))"

text \<open>
  One entry of the \<^verbatim>\<open>actions\<close> list. The keys \<^verbatim>\<open>action\<close>, \<^verbatim>\<open>backup\<close> and \<^verbatim>\<open>error\<close> are
  set on some paths only; \<open>None\<close> is a key that was not set.
\<close>

record action =
  a_file :: string
  a_type :: string
  a_status :: string
  a_action :: "string option"
  a_backup :: "string option"
  a_error :: "string option"

text \<open>
  An exception that leaves \<^verbatim>\<open>rollback_command\<close>: \<^verbatim>\<open>Path(None)\<close> in \<^verbatim>\<open>restore_file\<close> is
  a \<^verbatim>\<open>TypeError\<close>, which neither \<^verbatim>\<open>restore_file\<close> nor the loop catches.
\<close>

datatype py_exception = TypeError

text \<open>
  The body of the loop of \<^verbatim>\<open>rollback_command\<close> for one record. The delete branch
  catches every exception of \<^verbatim>\<open>unlink\<close> and stores its text; the restore branch has
  only the boolean of \<^verbatim>\<open>restore_file\<close>.
\<close>

definition rollback_action ::
  "bool \<Rightarrow> file_change \<Rightarrow> 's filesystem \<Rightarrow> (py_exception + action) \<times> 's filesystem" where
  "rollback_action dry_run fc fs =
     (let act = \<lparr>a_file = fc_file_path fc, a_type = fc_change_type fc, a_status = ''pending'',
                  a_action = None, a_backup = None, a_error = None\<rparr>
      in if fc_change_type fc = ''created'' then
           (let act = act\<lparr>a_action := Some ''delete''\<rparr>
            in if \<not> dry_run then
                 (case unlink fs (fc_file_path fc) of
                    Inr fs' \<Rightarrow> (Inr (act\<lparr>a_status := ''success''\<rparr>), fs')
                  | Inl e \<Rightarrow> (Inr (act\<lparr>a_status := ''failed'', a_error := Some (str_exc e)\<rparr>), fs))
               else (Inr act, fs))
         else if fc_change_type fc = ''modified'' \<or> fc_change_type fc = ''deleted'' then
           (let act = act\<lparr>a_action := Some ''restore'', a_backup := fc_backup_path fc\<rparr>
            in if \<not> dry_run then
                 (case fc_backup_path fc of
                    None \<Rightarrow> (Inl TypeError, fs)
                  | Some b \<Rightarrow>
                      (case restore_file fs b (fc_file_path fc) of
                         (success, fs') \<Rightarrow>
                           (Inr (act\<lparr>a_status := (if success then ''success'' else ''failed'')\<rparr>),
                            fs')))
               else (Inr act, fs))
         else (Inr act, fs))"

fun rollback_loop ::
  "bool \<Rightarrow> file_change list \<Rightarrow> action list \<Rightarrow> 's filesystem \<Rightarrow>
   (py_exception + action list) \<times> 's filesystem" where
  "rollback_loop dry_run [] actions fs = (Inr actions, fs)"
| "rollback_loop dry_run (fc # fcs) actions fs =
     (case rollback_action dry_run fc fs of
        (Inl e, fs') \<Rightarrow> (Inl e, fs')
      | (Inr a, fs') \<Rightarrow> rollback_loop dry_run fcs (actions @ [a]) fs')"

text \<open>The dict \<^verbatim>\<open>rollback_command\<close> returns; \<open>None\<close> is a key the dict does not have.\<close>

record rollback_result =
  r_success :: bool
  r_error :: "string option"
  r_dry_run :: "bool option"
  r_command_id :: "nat option"
  r_actions :: "action list"

definition rollback_command ::
  "db \<Rightarrow> 's filesystem \<Rightarrow> nat \<Rightarrow> bool \<Rightarrow> (py_exception + rollback_result) \<times> 's filesystem" where
  "rollback_command d fs command_id dry_run =
     (case can_rollback d fs command_id of
        (can_rb, reason) \<Rightarrow>
          if \<not> can_rb then
            (Inr \<lparr>r_success = False, r_error = Some reason, r_dry_run = None,
                  r_command_id = None, r_actions = []\<rparr>, fs)
          else
            (case rollback_loop dry_run (get_file_changes d command_id) [] fs of
               (Inl e, fs') \<Rightarrow> (Inl e, fs')
             | (Inr actions, fs') \<Rightarrow>
                 (Inr \<lparr>r_success = list_all (\<lambda>a. a_status a \<noteq> ''failed'') actions,
                       r_error = None, r_dry_run = Some dry_run,
                       r_command_id = Some command_id, r_actions = actions\<rparr>, fs')))"

subsection \<open>The file change tracker\<close>

text \<open>
  A snapshot is a Python dict from path to (digest, size), in insertion order; its keys
  are distinct. A digest or a size is \<open>None\<close> for a file that could not be read.
\<close>

type_synonym snapshot = "(string \<times> string option \<times> nat option) list"

definition snapshot_ok :: "snapshot \<Rightarrow> bool" where
  "snapshot_ok snap = distinct (map fst snap)"

text \<open>
  A change descriptor; the constructor is the value of its key \<^verbatim>\<open>type\<close>, and the
  arguments are the keys that descriptor has: path, then the old and new digest and
  size for \<^verbatim>\<open>modified\<close> (old_hash, new_hash, old_size, new_size), the old ones for
  \<^verbatim>\<open>deleted\<close>, the new ones for \<^verbatim>\<open>created\<close>.
\<close>

datatype change =
    Modified string "string option" "string option" "nat option" "nat option"
  | Deleted string "string option" "nat option"
  | Created string "string option" "nat option"

fun change_path :: "change \<Rightarrow> string" where
  "change_path (Modified p oh nh os ns) = p"
| "change_path (Deleted p oh os) = p"
| "change_path (Created p nh ns) = p"

text \<open>
  The two loops of the directory branch of \<^verbatim>\<open>detect_changes\<close>. The path of an entry is
  \<^verbatim>\<open>str(directory / rel_path)\<close>. The join of \<^verbatim>\<open>pathlib\<close> is not the concatenation of its
  operands (an absolute right operand replaces the left one, a left operand \<^verbatim>\<open>.\<close> is
  dropped, and two keys may be joined to the same path), so it is an argument,
  \<open>path_join\<close>, of which nothing is assumed.
\<close>

definition detect_changes_directory ::
  "(string \<Rightarrow> string \<Rightarrow> string) \<Rightarrow> string \<Rightarrow> snapshot \<Rightarrow> snapshot \<Rightarrow> change list" where
  "detect_changes_directory path_join directory watched_files current_snapshot =
     concat (map (\<lambda>(rel_path, old_hash, old_size).
        (case map_of current_snapshot rel_path of
           Some (new_hash, new_size) \<Rightarrow>
             if old_hash \<noteq> new_hash
             then [Modified (path_join directory rel_path) old_hash new_hash old_size new_size]
             else []
         | None \<Rightarrow> [Deleted (path_join directory rel_path) old_hash old_size]))
        watched_files)
     @ concat (map (\<lambda>(rel_path, new_hash, new_size).
        if rel_path \<notin> set (map fst watched_files)
        then [Created (path_join directory rel_path) new_hash new_size]
        else [])
        current_snapshot)"

text \<open>What the tracker reads from the disk.\<close>

record disk_reads =
  snapshot_directory :: "string \<Rightarrow> snapshot"
  get_file_hash :: "string \<Rightarrow> string option"
  get_file_size :: "string \<Rightarrow> nat option"

text \<open>The loop of the other branch: each watched path is hashed again.\<close>

definition detect_changes_files :: "disk_reads \<Rightarrow> snapshot \<Rightarrow> change list" where
  "detect_changes_files reads watched_files =
     concat (map (\<lambda>(path_str, old_hash, old_size).
        (let new_hash = get_file_hash reads path_str;
             new_size = get_file_size reads path_str
         in if old_hash = None \<and> new_hash \<noteq> None then [Created path_str new_hash new_size]
            else if old_hash \<noteq> None \<and> new_hash = None then [Deleted path_str old_hash old_size]
            else if old_hash \<noteq> new_hash
            then [Modified path_str old_hash new_hash old_size new_size]
            else []))
        watched_files)"

definition detect_changes ::
  "(string \<Rightarrow> string \<Rightarrow> string) \<Rightarrow> disk_reads \<Rightarrow> snapshot \<Rightarrow> string option \<Rightarrow> change list" where
  "detect_changes path_join reads watched_files directory =
     (case directory of
        Some dir \<Rightarrow>
          detect_changes_directory path_join dir watched_files (snapshot_directory reads dir)
      | None \<Rightarrow> detect_changes_files reads watched_files)"

subsection \<open>Fixtures\<close>

text \<open>The process state and the started session that the repository's tests set up.\<close>

definition test_env :: environ where
  "test_env = \<lparr>env_now = ''2026-01-31T10:00:00'', env_cwd = ''/home/user'',
                env_platform = ''Linux'', env_shell = ''/bin/sh'', env_user = ''user'',
                env_hostname = ''host''\<rparr>"

definition test_db :: db where
  "test_db = snd (start_session test_env empty_db ''test_session'' None None None None)"

text \<open>The test session after one successful command, and after it is started again.\<close>

definition test_db_recorded :: db where
  "test_db_recorded =
     snd (record_command test_env test_db ''test_session'' ''ls -la'' ''/home/user'' (Some 0)
            None None None None None)"

definition test_db_restarted :: db where
  "test_db_restarted =
     snd (start_session test_env test_db_recorded ''test_session'' None None None None)"

subsection \<open>The search index\<close>

text \<open>The text \<^verbatim>\<open>record_command\<close> indexes as output: \<^verbatim>\<open>output or ""\<close>.\<close>

definition output_or_empty :: "command \<Rightarrow> string" where
  "output_or_empty c = (case cmd_output c of None \<Rightarrow> [] | Some out \<Rightarrow> out)"

text \<open>
  The index row of a command, and the state every ledger built by the write
  operations is in: ids are a primary key, and the index holds the row of each command.
\<close>

definition fts_row_of :: "command \<Rightarrow> fts_row" where
  "fts_row_of c = (cmd_id c, cmd_command c, output_or_empty c)"

definition ledger_ok :: "db \<Rightarrow> bool" where
  "ledger_ok d = (distinct (map cmd_id (commands d))
                  \<and> commands_fts d = map fts_row_of (commands d))"







text \<open>The ledger of the search example: two commands, one second apart.\<close>

definition build_env :: environ where
  "build_env = test_env\<lparr>env_now := ''2026-01-31T10:00:01''\<rparr>"

definition build_db :: db where
  "build_db =
     snd (record_command build_env
            (snd (record_command test_env test_db ''test_session'' ''build project'' ''/home/user''
                    (Some 0) None None None None None))
            ''test_session'' ''test project'' ''/home/user'' (Some 1) None None None None None)"

text \<open>The same ledger with a second session that also has a build command.\<close>

definition two_session_db :: db where
  "two_session_db =
     snd (record_command build_env
            (snd (start_session build_env build_db ''other_session'' None None None None))
            ''other_session'' ''build docs'' ''/home/user'' (Some 0) None None None None None)"

subsection \<open>Fixtures for the statistics\<close>

text \<open>
  Exact arithmetic on fractions (numerator, denominator) for the examples, in place of
  binary floating point; rounding is to the nearest multiple of the unit, ties to even.
\<close>

definition round_half_even :: "int \<Rightarrow> int \<Rightarrow> int" where
  "round_half_even p q =
     (let f = p div q; r = p mod q
      in if 2 * r < q then f else if 2 * r > q then f + 1 else if even f then f else f + 1)"

definition exact_ops :: "(int \<times> int) float_ops" where
  "exact_ops =
     \<lparr>truediv = (\<lambda>a b. (a, b)),
      mul_int = (\<lambda>x k. (fst x * k, snd x)),
      round_ndigits = (\<lambda>x n. (round_half_even (fst x * 10 ^ nat n) (snd x), 10 ^ nat n))\<rparr>"

text \<open>The test session after four successes, one failure and one command of unknown outcome.\<close>

definition stats_db :: db where
  "stats_db = record_commands test_db ''test_session''
     [(test_env, ''command_0'', Some 0), (test_env, ''command_1'', Some 0),
      (test_env, ''command_2'', Some 0), (test_env, ''command_3'', Some 0),
      (test_env, ''command_4'', Some 1), (test_env, ''command_5'', None)]"

subsection \<open>Rollback: eligibility and intermediate states\<close>

text \<open>
  The test \<^verbatim>\<open>can_rollback\<close> makes on one record: its kind needs a backup, and the
  backup pointer is missing (null or empty) or names a file that is not on the disk.
\<close>

definition needs_backup :: "file_change \<Rightarrow> bool" where
  "needs_backup fc = (fc_change_type fc = ''modified'' \<or> fc_change_type fc = ''deleted'')"

definition backup_unavailable :: "'s filesystem \<Rightarrow> file_change \<Rightarrow> bool" where
  "backup_unavailable fs fc =
     (needs_backup fc \<and>
      (case supplied (fc_backup_path fc) of None \<Rightarrow> True | Some b \<Rightarrow> \<not> path_exists fs b))"


subsection \<open>Fixtures for the rollback\<close>

text \<open>
  The first command of the test session with a modified file that has a backup and a
  created file; with a modified file that has no backup; with a created file only.
\<close>

definition rollback_db :: db where
  "rollback_db =
     record_file_change
       (record_file_change test_db_recorded
          1 ''/tmp/test.txt'' ''modified'' None None None None
          (Some ''/tmp/backups/test_backup.txt''))
       1 ''/tmp/new.txt'' ''created'' None None None None None"

definition no_backup_db :: db where
  "no_backup_db =
     record_file_change test_db_recorded 1 ''/tmp/test.txt'' ''modified'' None None None None None"

definition created_db :: db where
  "created_db =
     record_file_change test_db_recorded 1 ''/tmp/new.txt'' ''created'' None None None None None"

text \<open>
  A platform for the examples. Its disk is the regular files with their bytes; unlink
  of an absent path raises with the text Linux gives (the path in quotes, as \<^verbatim>\<open>repr\<close>
  prints a path without quotes, backslashes and control characters), making the
  parents never fails, and \<^verbatim>\<open>copy2\<close> fails on an absent source and otherwise writes
  the bytes.
\<close>

definition quoted :: "string \<Rightarrow> string" where
  "quoted p = [CHR 0x27] @ p @ [CHR 0x27]"

definition test_platform :: "(string \<rightharpoonup> string) \<Rightarrow> (string \<rightharpoonup> string) filesystem" where
  "test_platform files =
     \<lparr>contents = files,
      sys_exists = (\<lambda>s p. s p \<noteq> None),
      sys_unlink = (\<lambda>s p.
         if s p = None
         then Inl (OSError (''[Errno 2] No such file or directory: '' @ quoted p))
         else Inr (s(p := None))),
      sys_mkdir_parent = (\<lambda>s p. (None, s)),
      sys_copy2 = (\<lambda>s src dst.
         case s src of
           None \<Rightarrow> (Some (OSError (''[Errno 2] No such file or directory: '' @ quoted src)), s)
         | Some bytes \<Rightarrow> (None, s(dst \<mapsto> bytes)))\<rparr>"

text \<open>
  Disks: all three files present; the same with the modified file owned by another
  user, so that \<^verbatim>\<open>copy2\<close> writes its bytes and then raises when it sets the times; the
  backup and the created file absent.
\<close>

definition rollback_fs :: "(string \<rightharpoonup> string) filesystem" where
  "rollback_fs =
     test_platform (Map.empty(''/tmp/test.txt'' \<mapsto> ''modified content'',
                              ''/tmp/backups/test_backup.txt'' \<mapsto> ''original content'',
                              ''/tmp/new.txt'' \<mapsto> ''new''))"


definition missing_fs :: "(string \<rightharpoonup> string) filesystem" where
  "missing_fs = test_platform (Map.empty(''/tmp/test.txt'' \<mapsto> ''modified content''))"

subsection \<open>Fixtures for the tracker\<close>

text \<open>
  A watched directory with files \<^verbatim>\<open>a.txt\<close> and \<^verbatim>\<open>c.txt\<close>; afterwards \<^verbatim>\<open>a.txt\<close> is gone,
  \<^verbatim>\<open>c.txt\<close> has other content and \<^verbatim>\<open>b.txt\<close> is new. A second directory held \<^verbatim>\<open>a.txt\<close>
  alone and now holds \<^verbatim>\<open>b.txt\<close> alone. A root that does not exist has the empty
  snapshot.
\<close>

definition tracker_baseline :: snapshot where
  "tracker_baseline =
     [(''a.txt'', Some ''0cc175b9'', Some 15), (''c.txt'', Some ''4a8a08f0'', Some 10)]"

definition swap_baseline :: snapshot where
  "swap_baseline = [(''a.txt'', Some ''0cc175b9'', Some 15)]"

text \<open>
  The join of \<^verbatim>\<open>pathlib\<close> on the operands of the example, a directory without a slash at
  its end and relative file names.
\<close>

definition tracker_join :: "string \<Rightarrow> string \<Rightarrow> string" where
  "tracker_join directory rel_path =
     (if rel_path \<noteq> [] \<and> hd rel_path = CHR ''/'' then rel_path
      else directory @ ''/'' @ rel_path)"

definition tracker_disk :: disk_reads where
  "tracker_disk =
     \<lparr>snapshot_directory =
        (\<lambda>dir. if dir = ''/tmp/watch''
               then [(''c.txt'', Some ''8277e091'', Some 12), (''b.txt'', Some ''92eb5ffe'', Some 3)]
               else if dir = ''/tmp/swap'' then [(''b.txt'', Some ''92eb5ffe'', Some 3)]
               else []),
      get_file_hash = (\<lambda>p. None), get_file_size = (\<lambda>p. None)\<rparr>"

section \<open>Properties of the ledger\<close>

subsection \<open>Session counters\<close>

lemma update_session_stats_id: "s_id (update_session_stats ec sid s) = s_id s"
  by (simp add: update_session_stats_def)

lemma find_map_update:
  "find (\<lambda>s. s_id s = sid) (map (update_session_stats ec sid') xs)
     = map_option (update_session_stats ec sid') (find (\<lambda>s. s_id s = sid) xs)"
  by (induction xs) (simp_all add: update_session_stats_id)

lemma get_session_record_command:
  "get_session (snd (record_command env d sid' cmd cwd ec out err dur tags notes)) sid
     = map_option (update_session_stats ec sid') (get_session d sid)"
  by (simp add: get_session_def record_command_def Let_def find_map_update)

lemma get_session_Some_id: "get_session d sid = Some s \<Longrightarrow> s_id s = sid"
  by (auto simp: get_session_def find_Some_iff)

text \<open>The counters after a run: each grows by the number of entries it counts.\<close>

lemma record_commands_counters:
  "get_session d sid = Some s \<Longrightarrow>
   \<exists>s'. get_session (record_commands d sid runs) sid = Some s'
     \<and> s_command_count s' = s_command_count s + int (length runs)
     \<and> s_success_count s' = s_success_count s + int (length (filter (\<lambda>r. snd (snd r) = Some 0) runs))
     \<and> s_error_count s' = s_error_count s
         + int (length (filter (\<lambda>r. snd (snd r) \<noteq> None \<and> snd (snd r) \<noteq> Some 0) runs))"
proof (induction runs arbitrary: d s)
  case Nil
  then show ?case by simp
next
  case (Cons r runs)
  obtain env cmd ec where r: "r = (env, cmd, ec)" by (cases r)
  let ?d = "snd (record_command env d sid cmd (env_cwd env) ec None None None None None)"
  have id: "s_id s = sid" using Cons.prems by (rule get_session_Some_id)
  have step: "get_session ?d sid = Some (update_session_stats ec sid s)"
    using Cons.prems by (simp add: get_session_record_command)
  from Cons.IH[OF step] obtain s' where
    s': "get_session (record_commands ?d sid runs) sid = Some s'"
      "s_command_count s' = s_command_count (update_session_stats ec sid s) + int (length runs)"
      "s_success_count s' = s_success_count (update_session_stats ec sid s)
          + int (length (filter (\<lambda>r. snd (snd r) = Some 0) runs))"
      "s_error_count s' = s_error_count (update_session_stats ec sid s)
          + int (length (filter (\<lambda>r. snd (snd r) \<noteq> None \<and> snd (snd r) \<noteq> Some 0) runs))"
    by blast
  show ?case
    using s' id by (cases ec) (auto simp: r update_session_stats_def)
qed

lemma filter_partition_len:
  "length (filter (\<lambda>r. snd (snd r) = Some (0::int)) runs)
    + length (filter (\<lambda>r. snd (snd r) \<noteq> None \<and> snd (snd r) \<noteq> Some 0) runs)
    + length (filter (\<lambda>r. snd (snd r) = None) runs) = length runs"
  by (induction runs) auto

lemma filter_none_zero:
  "(length (filter (\<lambda>r. snd (snd r) = None) runs) = 0)
     = (None \<notin> set (map (\<lambda>r. snd (snd r)) runs))"
  by (induction runs) auto

lemma test_db_session:
  "get_session test_db ''test_session'' =
     Some \<lparr>s_id = ''test_session'', s_name = None, s_description = None,
           s_started_at = ''2026-01-31T10:00:00'', s_ended_at = None, s_command_count = 0,
           s_success_count = 0, s_error_count = 0, s_cwd_start = Some ''/home/user'',
           s_agent_name = None, s_metadata = None\<rparr>"
  by (simp add: test_db_def start_session_def empty_db_def get_session_def test_env_def)

text \<open>
  Claim C4. A \<^verbatim>\<open>record_command\<close> call against an existing session row adds one to
  \<^verbatim>\<open>success_count\<close> exactly when the exit code is 0, one to \<^verbatim>\<open>error_count\<close> exactly
  when the exit code is neither null nor 0, and nothing to either on a null exit code.
  So after a run of N calls into that session the two counters have grown by at most
  N together, and by exactly N if and only if no call had a null exit code.
\<close>

theorem record_command_counter_partition:
  assumes "get_session d sid = Some s"
  shows "(\<exists>s1. get_session (snd (record_command env d sid cmd cwd ec out err dur tags notes)) sid
                 = Some s1
            \<and> s_success_count s1 = s_success_count s + (if ec = Some 0 then 1 else 0)
            \<and> s_error_count s1 = s_error_count s + (if ec \<noteq> None \<and> ec \<noteq> Some 0 then 1 else 0))
       \<and> (\<exists>sN. get_session (record_commands d sid runs) sid = Some sN
            \<and> (s_success_count sN - s_success_count s) + (s_error_count sN - s_error_count s)
                 \<le> int (length runs)
            \<and> ((s_success_count sN - s_success_count s) + (s_error_count sN - s_error_count s)
                 = int (length runs)
               \<longleftrightarrow> None \<notin> set (map (\<lambda>r. snd (snd r)) runs)))"
proof
  have id: "s_id s = sid" using assms by (rule get_session_Some_id)
  have "get_session (snd (record_command env d sid cmd cwd ec out err dur tags notes)) sid
          = Some (update_session_stats ec sid s)"
    using assms by (simp add: get_session_record_command)
  moreover have "s_success_count (update_session_stats ec sid s)
                   = s_success_count s + (if ec = Some 0 then 1 else 0)"
    using id by (cases ec) (simp_all add: update_session_stats_def)
  moreover have "s_error_count (update_session_stats ec sid s)
                   = s_error_count s + (if ec \<noteq> None \<and> ec \<noteq> Some 0 then 1 else 0)"
    using id by (cases ec) (simp_all add: update_session_stats_def)
  ultimately show "\<exists>s1. get_session
              (snd (record_command env d sid cmd cwd ec out err dur tags notes)) sid = Some s1
            \<and> s_success_count s1 = s_success_count s + (if ec = Some 0 then 1 else 0)
            \<and> s_error_count s1 = s_error_count s + (if ec \<noteq> None \<and> ec \<noteq> Some 0 then 1 else 0)"
    by blast
next
  let ?ok = "length (filter (\<lambda>r. snd (snd r) = Some (0::int)) runs)"
  let ?bad = "length (filter (\<lambda>r. snd (snd r) \<noteq> None \<and> snd (snd r) \<noteq> Some (0::int)) runs)"
  let ?null = "length (filter (\<lambda>r. snd (snd r) = (None::int option)) runs)"
  from record_commands_counters[OF assms, of runs] obtain sN where
    sN: "get_session (record_commands d sid runs) sid = Some sN"
        "s_success_count sN = s_success_count s + int ?ok"
        "s_error_count sN = s_error_count s + int ?bad"
    by blast
  have part: "?ok + ?bad + ?null = length runs" by (rule filter_partition_len)
  have null: "(?null = 0) = (None \<notin> set (map (\<lambda>r. snd (snd r)) runs))"
    by (rule filter_none_zero)
  have sum: "(s_success_count sN - s_success_count s) + (s_error_count sN - s_error_count s)
               = int (?ok + ?bad)"
    using sN by simp
  have le: "int (?ok + ?bad) \<le> int (length runs)" using part by linarith
  have eq: "(int (?ok + ?bad) = int (length runs)) = (?null = 0)" using part by linarith
  show "\<exists>sN. get_session (record_commands d sid runs) sid = Some sN
            \<and> (s_success_count sN - s_success_count s) + (s_error_count sN - s_error_count s)
                 \<le> int (length runs)
            \<and> ((s_success_count sN - s_success_count s) + (s_error_count sN - s_error_count s)
                 = int (length runs)
               \<longleftrightarrow> None \<notin> set (map (\<lambda>r. snd (snd r)) runs))"
    using sN(1) sum le eq null by (intro exI[of _ sN]) simp
qed

text \<open>
  On the fresh test session, a run with exit codes 0, 1 and null leaves the two
  counters below the three commands recorded.
\<close>

theorem record_command_counter_partition_witness:
  "\<exists>sN. get_session (record_commands test_db ''test_session''
            [(test_env, ''ls'', Some 0), (test_env, ''false'', Some 1), (test_env, ''vim'', None)])
            ''test_session'' = Some sN
        \<and> s_success_count sN + s_error_count sN \<le> 3
        \<and> s_success_count sN + s_error_count sN \<noteq> 3"
  using record_command_counter_partition [OF test_db_session,
      of test_env "''ls''" "''/home/user''" "Some 0" None None None None None
         "[(test_env, ''ls'', Some 0), (test_env, ''false'', Some 1), (test_env, ''vim'', None)]"]
  by simp

subsection \<open>Starting a session again\<close>

lemma find_app:
  "find P (xs @ ys) = (case find P xs of None \<Rightarrow> find P ys | Some x \<Rightarrow> Some x)"
  by (induction xs) auto

lemma find_filter_neg: "find P (filter (\<lambda>x. \<not> P x) xs) = None"
  by (induction xs) auto

lemma find_filter_other: "(\<And>x. P x \<Longrightarrow> Q x) \<Longrightarrow> find P (filter Q xs) = find P xs"
  by (induction xs) auto

lemma get_session_start_session_same:
  "get_session (snd (start_session env d sid name descr agent meta)) sid =
     Some \<lparr>s_id = sid, s_name = name, s_description = descr, s_started_at = env_now env,
           s_ended_at = None, s_command_count = 0, s_success_count = 0, s_error_count = 0,
           s_cwd_start = Some (env_cwd env), s_agent_name = agent, s_metadata = meta\<rparr>"
  by (simp add: get_session_def start_session_def find_app find_filter_neg)

lemma get_session_start_session_other:
  "sid' \<noteq> sid \<Longrightarrow>
   get_session (snd (start_session env d sid name descr agent meta)) sid' = get_session d sid'"
proof -
  assume ne: "sid' \<noteq> sid"
  have "find (\<lambda>s. s_id s = sid') (filter (\<lambda>s. s_id s \<noteq> sid) (sessions d))
          = find (\<lambda>s. s_id s = sid') (sessions d)"
    using ne by (intro find_filter_other) auto
  then show ?thesis
    using ne by (simp add: get_session_def start_session_def find_app split: option.splits)
qed

lemma start_session_twice:
  "snd (start_session env (snd (start_session env d sid name descr agent meta))
          sid name descr agent meta)
     = snd (start_session env d sid name descr agent meta)"
  by (simp add: start_session_def)

text \<open>
  Claim C7, as stated, fails: the claim says that a second \<^verbatim>\<open>start_session\<close> with the
  same id does not clear the counters the session has accumulated. The test session
  has one recorded command and one success; after it is started again both are 0.
\<close>

theorem start_session_keeps_counters_counterexample:
  "map_option s_command_count (get_session test_db_recorded ''test_session'') = Some 1
   \<and> map_option s_success_count (get_session test_db_recorded ''test_session'') = Some 1
   \<and> map_option s_command_count (get_session test_db_restarted ''test_session'') = Some 0
   \<and> map_option s_success_count (get_session test_db_restarted ''test_session'') = Some 0"
  by (simp add: test_db_restarted_def test_db_recorded_def get_session_start_session_same
        get_session_record_command test_db_session update_session_stats_def)

text \<open>
  Claim C7, amended. \<^verbatim>\<open>start_session\<close> returns the id and is an upsert that replaces
  the whole row: whatever the ledger held under that id, afterwards the row has the
  name, description, agent and metadata of this call, the start time and directory of
  this call, no end time, and the three counters at 0 (last writer wins, and the
  counters start again). Rows of other sessions are untouched, and repeating the same
  call changes nothing more.
\<close>

theorem start_session_replaces_row:
  "get_session (snd (start_session env d sid name descr agent meta)) sid =
     Some \<lparr>s_id = sid, s_name = name, s_description = descr, s_started_at = env_now env,
           s_ended_at = None, s_command_count = 0, s_success_count = 0, s_error_count = 0,
           s_cwd_start = Some (env_cwd env), s_agent_name = agent, s_metadata = meta\<rparr>
   \<and> (sid' \<noteq> sid \<longrightarrow>
        get_session (snd (start_session env d sid name descr agent meta)) sid' = get_session d sid')
   \<and> snd (start_session env (snd (start_session env d sid name descr agent meta))
             sid name descr agent meta)
       = snd (start_session env d sid name descr agent meta)
   \<and> fst (start_session env d sid name descr agent meta) = sid"
  by (simp add: get_session_start_session_same get_session_start_session_other start_session_twice)
     (simp add: start_session_def)

text \<open>Starting a second session leaves the recorded counters of the test session alone.\<close>

theorem start_session_replaces_row_witness:
  "map_option s_name (get_session (snd (start_session test_env test_db_recorded ''other''
       (Some ''Second'') None None None)) ''other'') = Some (Some ''Second'')
   \<and> map_option s_command_count (get_session (snd (start_session test_env test_db_recorded ''other''
       (Some ''Second'') None None None)) ''test_session'') = Some 1"
  using start_session_replaces_row [of test_env test_db_recorded "''other''" "Some ''Second''"
      None None None "''test_session''"]
  by (simp add: test_db_recorded_def get_session_record_command test_db_session
        update_session_stats_def)

subsection \<open>Searching\<close>

lemma foldr_max_ge: "x \<in> set ids \<Longrightarrow> x \<le> foldr max ids (0::nat)"
  by (induction ids) (auto simp: max_def)

lemma next_id_fresh: "next_id ids \<notin> set ids"
proof
  assume "next_id ids \<in> set ids"
  then have "next_id ids \<le> foldr max ids 0" by (rule foldr_max_ge)
  then show False by (simp add: next_id_def)
qed

lemma ledger_ok_empty: "ledger_ok empty_db"
  by (simp add: ledger_ok_def empty_db_def)

lemma ledger_ok_record_command:
  "ledger_ok d \<Longrightarrow> ledger_ok (snd (record_command env d sid cmd cwd ec out err dur tags notes))"
  using next_id_fresh[of "map cmd_id (commands d)"]
  by (simp add: ledger_ok_def record_command_def Let_def fts_row_of_def output_or_empty_def)

lemma ledger_ok_start_session:
  "ledger_ok d \<Longrightarrow> ledger_ok (snd (start_session env d sid name descr agent meta))"
  by (simp add: ledger_ok_def start_session_def)

lemma ledger_ok_record_file_change:
  "ledger_ok d \<Longrightarrow>
   ledger_ok (record_file_change d cid path kind oh nh os ns backup)"
  by (simp add: ledger_ok_def record_file_change_def)

lemma ledger_ok_end_session: "ledger_ok d \<Longrightarrow> ledger_ok (end_session env d sid)"
  by (simp add: ledger_ok_def end_session_def)











lemma build_db_ok: "ledger_ok build_db"
  by (simp add: build_db_def test_db_def ledger_ok_record_command ledger_ok_start_session
        ledger_ok_empty)







lemma two_session_db_ok: "ledger_ok two_session_db"
  by (simp add: two_session_db_def build_db_ok ledger_ok_record_command ledger_ok_start_session)






subsection \<open>Statistics\<close>

lemma length_filter_partition3:
  "length (filter (\<lambda>c. cmd_exit_code c = Some 0) cs)
     + length (filter exit_code_nonzero cs)
     + length (filter (\<lambda>c. cmd_exit_code c = None) cs) = length cs"
  by (induction cs) (auto simp: exit_code_nonzero_def split: option.splits)

lemma exit_code_nonzero_iff:
  "exit_code_nonzero c \<longleftrightarrow> cmd_exit_code c \<noteq> None \<and> cmd_exit_code c \<noteq> Some 0"
  by (auto simp: exit_code_nonzero_def split: option.splits)

text \<open>
  Claim C8. \<^verbatim>\<open>get_stats\<close> counts as successful the commands with exit code exactly 0
  and as failed those with a non-null, non-zero exit code, so a command with a null exit
  code is in the total and in neither count. The success rate is the int 0 when there is
  no command, and otherwise the successful count divided by the total, times 100,
  rounded to one decimal place, in Python's float arithmetic.
\<close>

theorem get_stats_success_rate:
  "total_commands (get_stats fl d) = int (length (commands d))
   \<and> successful_commands (get_stats fl d)
       = int (length (filter (\<lambda>c. cmd_exit_code c = Some 0) (commands d)))
   \<and> failed_commands (get_stats fl d)
       = int (length (filter (\<lambda>c. cmd_exit_code c \<noteq> None \<and> cmd_exit_code c \<noteq> Some 0)
                        (commands d)))
   \<and> successful_commands (get_stats fl d) + failed_commands (get_stats fl d)
       + int (length (filter (\<lambda>c. cmd_exit_code c = None) (commands d)))
       = total_commands (get_stats fl d)
   \<and> success_rate (get_stats fl d)
       = (if total_commands (get_stats fl d) = 0 then PyInt 0
          else PyFloat (round_ndigits fl
                 (mul_int fl (truediv fl (successful_commands (get_stats fl d))
                                         (total_commands (get_stats fl d))) 100) 1))"
proof -
  have nz: "filter exit_code_nonzero (commands d)
        = filter (\<lambda>c. cmd_exit_code c \<noteq> None \<and> cmd_exit_code c \<noteq> Some 0) (commands d)"
    by (rule filter_cong) (simp_all add: exit_code_nonzero_iff)
  have part: "int (length (filter (\<lambda>c. cmd_exit_code c = Some 0) (commands d)))
     + int (length (filter exit_code_nonzero (commands d)))
     + int (length (filter (\<lambda>c. cmd_exit_code c = None) (commands d)))
     = int (length (commands d))"
    using length_filter_partition3[of "commands d"] by linarith
  show ?thesis
    using part by (simp add: get_stats_def Let_def nz)
qed

lemma stats_db_exit_codes:
  "map cmd_exit_code (commands stats_db) = [Some 0, Some 0, Some 0, Some 0, Some 1, None]"
  by (simp add: stats_db_def test_db_def start_session_def empty_db_def record_command_def
        Let_def)

text \<open>
  Six commands, four of them successful and one of unknown outcome: the rate is 66.7;
  the empty ledger has rate 0.
\<close>

theorem get_stats_success_rate_witness:
  "total_commands (get_stats exact_ops stats_db) = 6
   \<and> successful_commands (get_stats exact_ops stats_db) = 4
   \<and> failed_commands (get_stats exact_ops stats_db) = 1
   \<and> success_rate (get_stats exact_ops stats_db) = PyFloat (667, 10)
   \<and> success_rate (get_stats exact_ops empty_db) = PyInt 0"
proof -
  have len: "length (commands stats_db) = 6"
    using arg_cong[OF stats_db_exit_codes, of length] by simp
  have ok: "length (filter (\<lambda>c. cmd_exit_code c = Some 0) (commands stats_db)) = 4"
    using arg_cong[OF stats_db_exit_codes, of "\<lambda>xs. length (filter (\<lambda>e. e = Some 0) xs)"]
    by (simp add: filter_map comp_def)
  have bad: "length (filter (\<lambda>c. cmd_exit_code c \<noteq> None \<and> cmd_exit_code c \<noteq> Some 0)
               (commands stats_db)) = 1"
    using arg_cong[OF stats_db_exit_codes,
        of "\<lambda>xs. length (filter (\<lambda>e. e \<noteq> None \<and> e \<noteq> Some 0) xs)"]
    by (simp add: filter_map comp_def)
  have e: "commands empty_db = []" by (simp add: empty_db_def)
  show ?thesis
    using get_stats_success_rate[of exact_ops stats_db]
      get_stats_success_rate[of exact_ops empty_db] len ok bad e
    by (simp add: exact_ops_def round_half_even_def)
qed

section \<open>Properties of the rollback engine\<close>

subsection \<open>Eligibility and the loop\<close>

lemma check_backups_None:
  "check_backups fs fcs = None \<longleftrightarrow> (\<forall>fc \<in> set fcs. \<not> backup_unavailable fs fc)"
  by (induction fcs)
     (auto simp: backup_unavailable_def needs_backup_def split: option.splits)

lemma check_backups_first:
  "\<forall>x \<in> set pre. \<not> backup_unavailable fs x \<Longrightarrow> backup_unavailable fs fc \<Longrightarrow>
   check_backups fs (pre @ fc # post) =
     Some ((if supplied (fc_backup_path fc) = None then ''No backup available for ''
            else ''Backup file missing for '') @ fc_file_path fc)"
  by (induction pre)
     (auto simp: backup_unavailable_def needs_backup_def split: option.splits)

lemma first_unavailable:
  "\<exists>fc \<in> set fcs. P fc \<Longrightarrow>
   \<exists>pre fc post. fcs = pre @ fc # post \<and> (\<forall>x \<in> set pre. \<not> P x) \<and> P fc"
  by (metis split_list_first_prop)

lemma can_rollback_iff:
  "fst (can_rollback d fs cid) \<longleftrightarrow>
     get_file_changes d cid \<noteq> []
     \<and> (\<forall>fc \<in> set (get_file_changes d cid). \<not> backup_unavailable fs fc)"
  using check_backups_None[of fs "get_file_changes d cid"]
  by (auto simp: can_rollback_def Let_def split: option.splits)

lemma rollback_command_refused:
  "\<not> fst (can_rollback d fs cid) \<Longrightarrow>
   rollback_command d fs cid dry_run =
     (Inr \<lparr>r_success = False, r_error = Some (snd (can_rollback d fs cid)), r_dry_run = None,
           r_command_id = None, r_actions = []\<rparr>, fs)"
  by (cases "can_rollback d fs cid") (simp add: rollback_command_def)

lemma rollback_action_dry:
  "rollback_action True fc fs =
     (Inr \<lparr>a_file = fc_file_path fc, a_type = fc_change_type fc, a_status = ''pending'',
           a_action = (if fc_change_type fc = ''created'' then Some ''delete''
                       else if needs_backup fc then Some ''restore'' else None),
           a_backup = (if fc_change_type fc \<noteq> ''created'' \<and> needs_backup fc
                       then fc_backup_path fc else None),
           a_error = None\<rparr>, fs)"
  by (simp add: rollback_action_def needs_backup_def)

lemma rollback_loop_dry:
  "\<exists>acts. rollback_loop True fcs acc fs = (Inr (acc @ acts), fs)
          \<and> map a_file acts = map fc_file_path fcs
          \<and> (\<forall>a \<in> set acts. a_status a = ''pending'')"
proof (induction fcs arbitrary: acc)
  case Nil
  show ?case by simp
next
  case (Cons fc fcs)
  obtain a where a: "rollback_action True fc fs = (Inr a, fs)"
    "a_file a = fc_file_path fc" "a_status a = ''pending''"
    by (simp add: rollback_action_dry)
  from Cons[of "acc @ [a]"] obtain acts where
    acts: "rollback_loop True fcs (acc @ [a]) fs = (Inr ((acc @ [a]) @ acts), fs)"
      "map a_file acts = map fc_file_path fcs" "\<forall>a \<in> set acts. a_status a = ''pending''"
    by blast
  show ?case
    using a acts by (intro exI[of _ "a # acts"]) simp
qed










subsection \<open>Dry runs\<close>

text \<open>
  Claim C1. For every command id, ledger and disk, \<^verbatim>\<open>rollback_command\<close> with
  \<^verbatim>\<open>dry_run=True\<close> returns a result (it raises nothing), leaves the disk exactly as it
  was, also when the rollback is refused, and every action of the returned plan has
  status \<^verbatim>\<open>pending\<close>; when the rollback is possible the plan has one action for each
  recorded file change, in order.
\<close>

theorem rollback_dry_run_pure:
  "snd (rollback_command d fs cid True) = fs
   \<and> (\<exists>r. fst (rollback_command d fs cid True) = Inr r
          \<and> (\<forall>a \<in> set (r_actions r). a_status a = ''pending'')
          \<and> (fst (can_rollback d fs cid) \<longrightarrow>
                map a_file (r_actions r) = map fc_file_path (get_file_changes d cid)))"
proof (cases "fst (can_rollback d fs cid)")
  case False
  then show ?thesis by (simp add: rollback_command_refused)
next
  case True
  from rollback_loop_dry[of "get_file_changes d cid" "[]" fs] obtain acts where
    loop: "rollback_loop True (get_file_changes d cid) [] fs = (Inr acts, fs)"
    and files: "map a_file acts = map fc_file_path (get_file_changes d cid)"
    and pending: "\<forall>a \<in> set acts. a_status a = ''pending''"
    by auto
  have "rollback_command d fs cid True =
          (Inr \<lparr>r_success = list_all (\<lambda>a. a_status a \<noteq> ''failed'') acts, r_error = None,
                r_dry_run = Some True, r_command_id = Some cid, r_actions = acts\<rparr>, fs)"
    using True loop by (cases "can_rollback d fs cid") (simp add: rollback_command_def)
  then show ?thesis using files pending by simp
qed

lemma rollback_db_changes:
  "get_file_changes rollback_db 1 =
     [\<lparr>fc_id = 1, fc_command_id = 1, fc_file_path = ''/tmp/test.txt'',
       fc_change_type = ''modified'', fc_old_hash = None, fc_new_hash = None,
       fc_old_size = None, fc_new_size = None,
       fc_backup_path = Some ''/tmp/backups/test_backup.txt''\<rparr>,
      \<lparr>fc_id = 2, fc_command_id = 1, fc_file_path = ''/tmp/new.txt'',
       fc_change_type = ''created'', fc_old_hash = None, fc_new_hash = None,
       fc_old_size = None, fc_new_size = None, fc_backup_path = None\<rparr>]"
  by (simp add: rollback_db_def test_db_recorded_def test_db_def record_file_change_def
        record_command_def start_session_def empty_db_def get_file_changes_def next_id_def
        Let_def)

lemma rollback_db_can: "fst (can_rollback rollback_db rollback_fs 1)"
  by (simp add: can_rollback_def rollback_db_changes supplied_def path_exists_def
        rollback_fs_def test_platform_def del: One_nat_def)

text \<open>The dry run of the test command plans two pending actions and leaves the disk alone.\<close>

theorem rollback_dry_run_pure_witness:
  "snd (rollback_command rollback_db rollback_fs 1 True) = rollback_fs
   \<and> (\<exists>r. fst (rollback_command rollback_db rollback_fs 1 True) = Inr r
          \<and> map a_file (r_actions r) = [''/tmp/test.txt'', ''/tmp/new.txt'']
          \<and> (\<forall>a \<in> set (r_actions r). a_status a = ''pending''))"
  using rollback_dry_run_pure[of rollback_db rollback_fs 1] rollback_db_can
  by (auto simp: rollback_db_changes simp del: One_nat_def)

subsection \<open>Refusals\<close>

lemma created_available: "fc_change_type fc = ''created'' \<Longrightarrow> \<not> backup_unavailable fs fc"
  by (simp add: backup_unavailable_def needs_backup_def)

text \<open>
  Claim C2. If the command has no file change records, \<^verbatim>\<open>can_rollback\<close> is false and
  \<^verbatim>\<open>rollback_command\<close> returns \<^verbatim>\<open>success=False\<close> with no actions and the reason
  \<^verbatim>\<open>No file changes recorded for this command\<close>. If some record of kind \<^verbatim>\<open>modified\<close> or
  \<^verbatim>\<open>deleted\<close> has no backup pointer, or its backup is not on the disk, \<^verbatim>\<open>can_rollback\<close>
  is false with a reason that names the path of such a record (the first one in the
  order of the records), and \<^verbatim>\<open>rollback_command\<close> returns \<^verbatim>\<open>success=False\<close> with that
  reason, no actions and the disk unchanged. A rollback is possible exactly when there
  are records and none of them lacks its backup, and a \<^verbatim>\<open>created\<close> record never does.
\<close>

theorem rollback_refused_without_backup:
  "(get_file_changes d cid = [] \<longrightarrow>
      can_rollback d fs cid = (False, ''No file changes recorded for this command'')
      \<and> rollback_command d fs cid dry_run =
          (Inr \<lparr>r_success = False,
                r_error = Some ''No file changes recorded for this command'',
                r_dry_run = None, r_command_id = None, r_actions = []\<rparr>, fs))
   \<and> ((\<exists>fc \<in> set (get_file_changes d cid). backup_unavailable fs fc) \<longrightarrow>
        (\<exists>pre fc post reason.
            get_file_changes d cid = pre @ fc # post
            \<and> (\<forall>x \<in> set pre. \<not> backup_unavailable fs x)
            \<and> backup_unavailable fs fc
            \<and> reason = (if supplied (fc_backup_path fc) = None
                          then ''No backup available for ''
                          else ''Backup file missing for '') @ fc_file_path fc
            \<and> can_rollback d fs cid = (False, reason)
            \<and> rollback_command d fs cid dry_run =
                (Inr \<lparr>r_success = False, r_error = Some reason, r_dry_run = None,
                      r_command_id = None, r_actions = []\<rparr>, fs)))
   \<and> (fst (can_rollback d fs cid) \<longleftrightarrow>
        get_file_changes d cid \<noteq> []
        \<and> (\<forall>fc \<in> set (get_file_changes d cid). \<not> backup_unavailable fs fc))
   \<and> (\<forall>fc. fc_change_type fc = ''created'' \<longrightarrow> \<not> backup_unavailable fs fc)"
proof (intro conjI impI)
  assume e: "get_file_changes d cid = []"
  then show c: "can_rollback d fs cid = (False, ''No file changes recorded for this command'')"
    by (simp add: can_rollback_def)
  then have "\<not> fst (can_rollback d fs cid)" by simp
  from rollback_command_refused[OF this, of dry_run] c
  show "rollback_command d fs cid dry_run =
          (Inr \<lparr>r_success = False,
                r_error = Some ''No file changes recorded for this command'',
                r_dry_run = None, r_command_id = None, r_actions = []\<rparr>, fs)"
    by simp
next
  let ?fcs = "get_file_changes d cid"
  assume "\<exists>fc \<in> set ?fcs. backup_unavailable fs fc"
  from first_unavailable[OF this] obtain pre fc post where
    split: "?fcs = pre @ fc # post" and pre: "\<forall>x \<in> set pre. \<not> backup_unavailable fs x"
    and bad: "backup_unavailable fs fc"
    by blast
  let ?reason = "(if supplied (fc_backup_path fc) = None then ''No backup available for ''
                  else ''Backup file missing for '') @ fc_file_path fc"
  have chk: "check_backups fs ?fcs = Some ?reason"
    unfolding split using pre bad by (rule check_backups_first)
  have ne: "?fcs \<noteq> []" using split by simp
  have can: "can_rollback d fs cid = (False, ?reason)"
    using ne chk by (simp add: can_rollback_def Let_def)
  then have "\<not> fst (can_rollback d fs cid)" by simp
  from rollback_command_refused[OF this, of dry_run] can
  have rb: "rollback_command d fs cid dry_run =
                (Inr \<lparr>r_success = False, r_error = Some ?reason, r_dry_run = None,
                      r_command_id = None, r_actions = []\<rparr>, fs)"
    by simp
  from split pre bad can rb
  show "\<exists>pre fc post reason.
            get_file_changes d cid = pre @ fc # post
            \<and> (\<forall>x \<in> set pre. \<not> backup_unavailable fs x)
            \<and> backup_unavailable fs fc
            \<and> reason = (if supplied (fc_backup_path fc) = None
                          then ''No backup available for ''
                          else ''Backup file missing for '') @ fc_file_path fc
            \<and> can_rollback d fs cid = (False, reason)
            \<and> rollback_command d fs cid dry_run =
                (Inr \<lparr>r_success = False, r_error = Some reason, r_dry_run = None,
                      r_command_id = None, r_actions = []\<rparr>, fs)"
    by (intro exI[of _ pre] exI[of _ fc] exI[of _ post] exI[of _ ?reason] conjI refl)
next
  show "fst (can_rollback d fs cid) \<longleftrightarrow>
        get_file_changes d cid \<noteq> []
        \<and> (\<forall>fc \<in> set (get_file_changes d cid). \<not> backup_unavailable fs fc)"
    by (rule can_rollback_iff)
next
  show "\<forall>fc. fc_change_type fc = ''created'' \<longrightarrow> \<not> backup_unavailable fs fc"
    by (simp add: created_available)
qed

lemma no_backup_db_changes:
  "get_file_changes no_backup_db 1 =
     [\<lparr>fc_id = 1, fc_command_id = 1, fc_file_path = ''/tmp/test.txt'',
       fc_change_type = ''modified'', fc_old_hash = None, fc_new_hash = None,
       fc_old_size = None, fc_new_size = None, fc_backup_path = None\<rparr>]"
  by (simp add: no_backup_db_def test_db_recorded_def test_db_def record_file_change_def
        record_command_def start_session_def empty_db_def get_file_changes_def next_id_def
        Let_def)

lemma created_db_changes:
  "get_file_changes created_db 1 =
     [\<lparr>fc_id = 1, fc_command_id = 1, fc_file_path = ''/tmp/new.txt'',
       fc_change_type = ''created'', fc_old_hash = None, fc_new_hash = None,
       fc_old_size = None, fc_new_size = None, fc_backup_path = None\<rparr>]"
  by (simp add: created_db_def test_db_recorded_def test_db_def record_file_change_def
        record_command_def start_session_def empty_db_def get_file_changes_def next_id_def
        Let_def)

lemma test_db_recorded_changes: "get_file_changes test_db_recorded 1 = []"
  by (simp add: test_db_recorded_def test_db_def record_command_def start_session_def
        empty_db_def get_file_changes_def Let_def)

text \<open>
  A command without records, a modified file without a backup pointer, a modified file
  whose backup is not on the disk, and a command that only created a file.
\<close>

theorem rollback_refused_without_backup_witness:
  "rollback_command test_db_recorded rollback_fs 1 False =
     (Inr \<lparr>r_success = False, r_error = Some ''No file changes recorded for this command'',
           r_dry_run = None, r_command_id = None, r_actions = []\<rparr>, rollback_fs)
   \<and> can_rollback no_backup_db rollback_fs 1 = (False, ''No backup available for /tmp/test.txt'')
   \<and> rollback_command no_backup_db rollback_fs 1 False =
     (Inr \<lparr>r_success = False, r_error = Some ''No backup available for /tmp/test.txt'',
           r_dry_run = None, r_command_id = None, r_actions = []\<rparr>, rollback_fs)
   \<and> \<not> fst (can_rollback rollback_db missing_fs 1)
   \<and> snd (rollback_command rollback_db missing_fs 1 False) = missing_fs
   \<and> fst (can_rollback created_db missing_fs 1)"
proof (intro conjI)
  show "rollback_command test_db_recorded rollback_fs 1 False =
     (Inr \<lparr>r_success = False, r_error = Some ''No file changes recorded for this command'',
           r_dry_run = None, r_command_id = None, r_actions = []\<rparr>, rollback_fs)"
    using rollback_refused_without_backup[of test_db_recorded 1 rollback_fs False]
      test_db_recorded_changes
    by (simp del: One_nat_def)
next
  have bad: "\<exists>fc \<in> set (get_file_changes no_backup_db 1). backup_unavailable rollback_fs fc"
    by (simp add: no_backup_db_changes backup_unavailable_def needs_backup_def supplied_def
          del: One_nat_def)
  with rollback_refused_without_backup[of no_backup_db 1 rollback_fs False]
  obtain pre fc post reason where
    split: "get_file_changes no_backup_db 1 = pre @ fc # post"
    and reason: "reason = (if supplied (fc_backup_path fc) = None
                          then ''No backup available for ''
                          else ''Backup file missing for '') @ fc_file_path fc"
    and can: "can_rollback no_backup_db rollback_fs 1 = (False, reason)"
    and rb: "rollback_command no_backup_db rollback_fs 1 False =
                (Inr \<lparr>r_success = False, r_error = Some reason, r_dry_run = None,
                      r_command_id = None, r_actions = []\<rparr>, rollback_fs)"
    by blast
  from split have "pre = []" and "post = []"
    and fc: "fc = \<lparr>fc_id = 1, fc_command_id = 1, fc_file_path = ''/tmp/test.txt'',
       fc_change_type = ''modified'', fc_old_hash = None, fc_new_hash = None,
       fc_old_size = None, fc_new_size = None, fc_backup_path = None\<rparr>"
    by (simp_all add: no_backup_db_changes Cons_eq_append_conv del: One_nat_def)
  then have r: "reason = ''No backup available for /tmp/test.txt''"
    using reason by (simp add: supplied_def)
  show "can_rollback no_backup_db rollback_fs 1 = (False, ''No backup available for /tmp/test.txt'')"
    using can r by simp
  show "rollback_command no_backup_db rollback_fs 1 False =
     (Inr \<lparr>r_success = False, r_error = Some ''No backup available for /tmp/test.txt'',
           r_dry_run = None, r_command_id = None, r_actions = []\<rparr>, rollback_fs)"
    using rb r by simp
next
  have bad: "\<exists>fc \<in> set (get_file_changes rollback_db 1). backup_unavailable missing_fs fc"
    by (simp add: rollback_db_changes backup_unavailable_def needs_backup_def supplied_def
          path_exists_def missing_fs_def test_platform_def del: One_nat_def)
  with rollback_refused_without_backup[of rollback_db 1 missing_fs False]
  obtain reason where
    can: "can_rollback rollback_db missing_fs 1 = (False, reason)"
    and rb: "rollback_command rollback_db missing_fs 1 False =
                (Inr \<lparr>r_success = False, r_error = Some reason, r_dry_run = None,
                      r_command_id = None, r_actions = []\<rparr>, missing_fs)"
    by blast
  show "\<not> fst (can_rollback rollback_db missing_fs 1)" using can by simp
  show "snd (rollback_command rollback_db missing_fs 1 False) = missing_fs" using rb by simp
next
  show "fst (can_rollback created_db missing_fs 1)"
    using rollback_refused_without_backup[of created_db 1 missing_fs False]
    by (simp add: created_db_changes del: One_nat_def)
qed

subsection \<open>Applying a rollback\<close>












section \<open>Properties of the file change tracker\<close>

lemma in_second_loop:
  "c \<in> set (concat (map (\<lambda>(rel_path, new_hash, new_size).
        if rel_path \<notin> K
        then [Created (path_join dir rel_path) new_hash new_size]
        else [])
        current))
   \<longleftrightarrow> (\<exists>p nh ns. (p, nh, ns) \<in> set current \<and> p \<notin> K
                     \<and> c = Created (path_join dir p) nh ns)"
  by (induction current) auto

lemma in_concat_map3:
  assumes "\<And>p a b. c \<in> set (g p a b) \<longleftrightarrow> Q p a b"
  shows "c \<in> set (concat (map (\<lambda>(p, a, b). g p a b) xs))
           \<longleftrightarrow> (\<exists>p a b. (p, a, b) \<in> set xs \<and> Q p a b)"
  by (induction xs) (auto simp: assms)

lemma first_body:
  "c \<in> set (case map_of current p of
           Some (new_hash, new_size) \<Rightarrow>
             if oh \<noteq> new_hash
             then [Modified (path_join dir p) oh new_hash os new_size]
             else []
         | None \<Rightarrow> [Deleted (path_join dir p) oh os])
      \<longleftrightarrow> (map_of current p = None \<and> c = Deleted (path_join dir p) oh os)
          \<or> (\<exists>nh ns. map_of current p = Some (nh, ns) \<and> oh \<noteq> nh
                 \<and> c = Modified (path_join dir p) oh nh os ns)"
proof (cases "map_of current p")
  case None
  then show ?thesis by simp
next
  case (Some v)
  obtain nh ns where v: "v = (nh, ns)" by (cases v)
  show ?thesis unfolding Some v by (cases "oh = nh") simp_all
qed

lemma in_first_loop:
  "c \<in> set (concat (map (\<lambda>(rel_path, old_hash, old_size).
        (case map_of current rel_path of
           Some (new_hash, new_size) \<Rightarrow>
             if old_hash \<noteq> new_hash
             then [Modified (path_join dir rel_path) old_hash new_hash old_size new_size]
             else []
         | None \<Rightarrow> [Deleted (path_join dir rel_path) old_hash old_size]))
        watched))
   \<longleftrightarrow> (\<exists>p oh os. (p, oh, os) \<in> set watched \<and>
         ((map_of current p = None \<and> c = Deleted (path_join dir p) oh os)
          \<or> (\<exists>nh ns. map_of current p = Some (nh, ns) \<and> oh \<noteq> nh
                 \<and> c = Modified (path_join dir p) oh nh os ns)))"
  by (rule in_concat_map3) (rule first_body)

lemma set_detect_changes_directory:
  assumes "snapshot_ok current"
  shows "set (detect_changes_directory path_join dir watched current) =
           {Deleted (path_join dir p) oh os | p oh os.
              (p, oh, os) \<in> set watched \<and> p \<notin> fst ` set current}
         \<union> {Modified (path_join dir p) oh nh os ns | p oh nh os ns.
              (p, oh, os) \<in> set watched \<and> (p, nh, ns) \<in> set current \<and> oh \<noteq> nh}
         \<union> {Created (path_join dir p) nh ns | p nh ns.
              (p, nh, ns) \<in> set current \<and> p \<notin> fst ` set watched}"
proof (rule set_eqI)
  fix c
  have dc: "distinct (map fst current)" using assms by (simp add: snapshot_ok_def)
  have some: "\<And>p nh ns. map_of current p = Some (nh, ns) \<longleftrightarrow> (p, nh, ns) \<in> set current"
    using dc by simp
  have none: "\<And>p. map_of current p = None \<longleftrightarrow> p \<notin> fst ` set current"
    by (simp add: map_of_eq_None_iff)
  have lhs: "c \<in> set (detect_changes_directory path_join dir watched current) \<longleftrightarrow>
      (\<exists>p oh os. (p, oh, os) \<in> set watched \<and>
         ((p \<notin> fst ` set current \<and> c = Deleted (path_join dir p) oh os)
          \<or> (\<exists>nh ns. (p, nh, ns) \<in> set current \<and> oh \<noteq> nh
                 \<and> c = Modified (path_join dir p) oh nh os ns)))
      \<or> (\<exists>p nh ns. (p, nh, ns) \<in> set current \<and> p \<notin> set (map fst watched)
                     \<and> c = Created (path_join dir p) nh ns)"
    unfolding detect_changes_directory_def set_append Un_iff in_first_loop in_second_loop
      some none ..
  show "c \<in> set (detect_changes_directory path_join dir watched current) \<longleftrightarrow>
        c \<in> {Deleted (path_join dir p) oh os | p oh os.
              (p, oh, os) \<in> set watched \<and> p \<notin> fst ` set current}
         \<union> {Modified (path_join dir p) oh nh os ns | p oh nh os ns.
              (p, oh, os) \<in> set watched \<and> (p, nh, ns) \<in> set current \<and> oh \<noteq> nh}
         \<union> {Created (path_join dir p) nh ns | p nh ns.
              (p, nh, ns) \<in> set current \<and> p \<notin> fst ` set watched}"
    unfolding lhs Un_iff mem_Collect_eq set_map by blast
qed

text \<open>The entries of one baseline item, by kind.\<close>

lemma no_key_no_match:
  "p \<notin> fst ` set current \<Longrightarrow>
   [g nh ns. (q, nh, ns) \<leftarrow> current, q = p, P nh] = []"
  by (induction current) auto

lemma lookup_comprehension:
  assumes "distinct (map fst current)"
  shows "(case map_of current p of
            Some (nh, ns) \<Rightarrow> if P nh then [g nh ns] else []
          | None \<Rightarrow> [])
         = [g nh ns. (q, nh, ns) \<leftarrow> current, q = p, P nh]"
  using assms
proof (induction current)
  case Nil
  show ?case by simp
next
  case (Cons x xs)
  obtain q nh ns where x: "x = (q, nh, ns)" by (cases x)
  show ?case
  proof (cases "q = p")
    case True
    then have "p \<notin> fst ` set xs" using Cons.prems x by auto
    from no_key_no_match[OF this, where g = g and P = P] show ?thesis using True x by simp
  next
    case False
    then show ?thesis using Cons x by simp
  qed
qed

lemma first_body_split:
  assumes "distinct (map fst current)"
  shows "(case map_of current p of
           Some (new_hash, new_size) \<Rightarrow>
             if oh \<noteq> new_hash
             then [Modified (path_join dir p) oh new_hash os new_size]
             else []
         | None \<Rightarrow> [Deleted (path_join dir p) oh os])
       = (if p \<notin> fst ` set current then [Deleted (path_join dir p) oh os] else [])
         @ [Modified (path_join dir p) oh nh os ns. (q, nh, ns) \<leftarrow> current, q = p, oh \<noteq> nh]"
proof (cases "map_of current p")
  case None
  then have "p \<notin> fst ` set current" by (simp add: map_of_eq_None_iff)
  from no_key_no_match[OF this, where g = "\<lambda>nh ns. Modified (path_join dir p) oh nh os ns"
      and P = "\<lambda>nh. oh \<noteq> nh"]
  show ?thesis using None \<open>p \<notin> fst ` set current\<close> by simp
next
  case (Some v)
  then have "p \<in> fst ` set current" by (metis map_of_eq_None_iff option.distinct(1))
  with lookup_comprehension[OF assms, where p = p and P = "\<lambda>nh. oh \<noteq> nh"
      and g = "\<lambda>nh ns. Modified (path_join dir p) oh nh os ns"] Some
  show ?thesis by (cases v) simp
qed

lemma mset_concat_split:
  assumes "\<And>x. x \<in> set xs \<Longrightarrow> f x = g x @ h x"
  shows "mset (concat (map f xs)) = mset (concat (map g xs)) + mset (concat (map h xs))"
  using assms by (induction xs) simp_all

lemma mset_first_loop:
  assumes "distinct (map fst current)"
  shows "mset (concat (map (\<lambda>(rel_path, old_hash, old_size).
        (case map_of current rel_path of
           Some (new_hash, new_size) \<Rightarrow>
             if old_hash \<noteq> new_hash
             then [Modified (path_join dir rel_path) old_hash new_hash old_size new_size]
             else []
         | None \<Rightarrow> [Deleted (path_join dir rel_path) old_hash old_size]))
        watched))
     = mset [Deleted (path_join dir p) oh os. (p, oh, os) \<leftarrow> watched, p \<notin> fst ` set current]
     + mset [Modified (path_join dir p) oh nh os ns.
               (p, oh, os) \<leftarrow> watched, (q, nh, ns) \<leftarrow> current, q = p, oh \<noteq> nh]"
proof -
  have "mset (concat (map (\<lambda>(rel_path, old_hash, old_size).
        (case map_of current rel_path of
           Some (new_hash, new_size) \<Rightarrow>
             if old_hash \<noteq> new_hash
             then [Modified (path_join dir rel_path) old_hash new_hash old_size new_size]
             else []
         | None \<Rightarrow> [Deleted (path_join dir rel_path) old_hash old_size]))
        watched))
     = mset (concat (map (\<lambda>(p, oh, os).
          if p \<notin> fst ` set current then [Deleted (path_join dir p) oh os] else []) watched))
     + mset (concat (map (\<lambda>(p, oh, os).
          [Modified (path_join dir p) oh nh os ns. (q, nh, ns) \<leftarrow> current, q = p, oh \<noteq> nh])
          watched))"
  proof (rule mset_concat_split)
    fix x assume "x \<in> set watched"
    obtain p oh os where x: "x = (p, oh, os)" by (cases x)
    show "(case x of (rel_path, old_hash, old_size) \<Rightarrow>
        (case map_of current rel_path of
           Some (new_hash, new_size) \<Rightarrow>
             if old_hash \<noteq> new_hash
             then [Modified (path_join dir rel_path) old_hash new_hash old_size new_size]
             else []
         | None \<Rightarrow> [Deleted (path_join dir rel_path) old_hash old_size]))
       = (case x of (p, oh, os) \<Rightarrow>
          if p \<notin> fst ` set current then [Deleted (path_join dir p) oh os] else [])
       @ (case x of (p, oh, os) \<Rightarrow>
          [Modified (path_join dir p) oh nh os ns. (q, nh, ns) \<leftarrow> current, q = p, oh \<noteq> nh])"
      unfolding x prod.case by (rule first_body_split[OF assms])
  qed
  then show ?thesis by simp
qed

lemma mset_detect_changes_directory:
  assumes "snapshot_ok current"
  shows "mset (detect_changes_directory path_join dir watched current) =
       mset [Deleted (path_join dir p) oh os. (p, oh, os) \<leftarrow> watched, p \<notin> fst ` set current]
     + mset [Modified (path_join dir p) oh nh os ns.
               (p, oh, os) \<leftarrow> watched, (q, nh, ns) \<leftarrow> current, q = p, oh \<noteq> nh]
     + mset [Created (path_join dir p) nh ns. (p, nh, ns) \<leftarrow> current, p \<notin> fst ` set watched]"
proof -
  have dc: "distinct (map fst current)" using assms by (simp add: snapshot_ok_def)
  show ?thesis
    unfolding detect_changes_directory_def mset_append mset_first_loop[OF dc]
    by simp
qed


text \<open>The items of a dict are a set: a comprehension over them counts each once.\<close>

lemma distinct_items: "distinct (map fst xs) \<Longrightarrow> distinct xs"
  by (rule distinct_map[THEN iffD1, THEN conjunct1])

lemma mset_map_filter_items:
  assumes "distinct xs"
  shows "mset (map f (filter P xs)) = image_mset f (mset_set {x \<in> set xs. P x})"
proof -
  have "distinct (filter P xs)" using assms by simp
  then have "mset_set (set (filter P xs)) = mset (filter P xs)" by (rule mset_set_set)
  moreover have "set (filter P xs) = {x \<in> set xs. P x}" by simp
  ultimately have e: "mset (filter P xs) = mset_set {x \<in> set xs. P x}" by (simp only:)
  have "mset (map f (filter P xs)) = image_mset f (mset (filter P xs))" by simp
  then show ?thesis by (simp only: e)
qed

lemma comprehension_items:
  "concat (map (\<lambda>(p, a, b). if P p a b then [f p a b] else []) xs)
     = map (\<lambda>(p, a, b). f p a b) (filter (\<lambda>(p, a, b). P p a b) xs)"
  by (induction xs) auto

lemma inner_pairs:
  "[f p oh os q nh ns. (q, nh, ns) \<leftarrow> ys, P p oh q nh]
     = map (\<lambda>((p, oh, os), (q, nh, ns)). f p oh os q nh ns)
         (filter (\<lambda>((p, oh, os), (q, nh, ns)). P p oh q nh) (map (Pair (p, oh, os)) ys))"
  by (induction ys) auto

lemma comprehension_pairs:
  "concat (map (\<lambda>(p, oh, os). [f p oh os q nh ns. (q, nh, ns) \<leftarrow> ys, P p oh q nh]) xs)
     = map (\<lambda>((p, oh, os), (q, nh, ns)). f p oh os q nh ns)
         (filter (\<lambda>((p, oh, os), (q, nh, ns)). P p oh q nh) (List.product xs ys))"
proof (induction xs)
  case Nil
  show ?case by simp
next
  case (Cons x xs)
  obtain p oh os where x: "x = (p, oh, os)" by (cases x)
  show ?case
    unfolding list.map concat.simps product.simps map_append filter_append Cons x prod.case
    by (simp only: inner_pairs[where f = f and p = p and oh = oh and os = os and P = P and ys = ys])
qed

lemma nested_if_Nil: "(if a then if b then x else [] else []) = (if a \<and> b then x else [])"
  by simp

lemma mset_items_deleted:
  assumes "distinct (map fst watched)"
  shows "mset [Deleted (path_join dir p) oh os. (p, oh, os) \<leftarrow> watched, p \<notin> K]
       = image_mset (\<lambda>(p, oh, os). Deleted (path_join dir p) oh os)
           (mset_set {(p, oh, os). (p, oh, os) \<in> set watched \<and> p \<notin> K})"
proof -
  have "{x \<in> set watched. (\<lambda>(p, oh, os). p \<notin> K) x}
          = {(p, oh, os). (p, oh, os) \<in> set watched \<and> p \<notin> K}"
    by auto
  with mset_map_filter_items[OF distinct_items[OF assms],
      where f = "\<lambda>(p, oh, os). Deleted (path_join dir p) oh os" and P = "\<lambda>(p, oh, os). p \<notin> K"]
  show ?thesis
    by (simp only: comprehension_items[where P = "\<lambda>p oh os. p \<notin> K"
          and f = "\<lambda>p oh os. Deleted (path_join dir p) oh os" and xs = watched])
qed

lemma mset_items_created:
  assumes "distinct (map fst current)"
  shows "mset [Created (path_join dir p) nh ns. (p, nh, ns) \<leftarrow> current, p \<notin> K]
       = image_mset (\<lambda>(p, nh, ns). Created (path_join dir p) nh ns)
           (mset_set {(p, nh, ns). (p, nh, ns) \<in> set current \<and> p \<notin> K})"
proof -
  have "{x \<in> set current. (\<lambda>(p, nh, ns). p \<notin> K) x}
          = {(p, nh, ns). (p, nh, ns) \<in> set current \<and> p \<notin> K}"
    by auto
  with mset_map_filter_items[OF distinct_items[OF assms],
      where f = "\<lambda>(p, nh, ns). Created (path_join dir p) nh ns" and P = "\<lambda>(p, nh, ns). p \<notin> K"]
  show ?thesis
    by (simp only: comprehension_items[where P = "\<lambda>p nh ns. p \<notin> K"
          and f = "\<lambda>p nh ns. Created (path_join dir p) nh ns" and xs = current])
qed

lemma mset_items_modified:
  assumes "distinct (map fst watched)" and "distinct (map fst current)"
  shows "mset [Modified (path_join dir p) oh nh os ns.
               (p, oh, os) \<leftarrow> watched, (q, nh, ns) \<leftarrow> current, q = p, oh \<noteq> nh]
       = image_mset (\<lambda>((p, oh, os), (q, nh, ns)). Modified (path_join dir p) oh nh os ns)
           (mset_set {((p, oh, os), (q, nh, ns)).
              (p, oh, os) \<in> set watched \<and> (q, nh, ns) \<in> set current \<and> q = p \<and> oh \<noteq> nh})"
proof -
  let ?f = "\<lambda>p oh os q nh ns. Modified (path_join dir p) oh nh os ns"
  let ?P = "\<lambda>p oh q nh. q = p \<and> oh \<noteq> nh"
  have d: "distinct (List.product watched current)"
    using assms by (intro distinct_product distinct_items)
  have l: "[Modified (path_join dir p) oh nh os ns.
               (p, oh, os) \<leftarrow> watched, (q, nh, ns) \<leftarrow> current, q = p, oh \<noteq> nh]
        = map (\<lambda>((p, oh, os), (q, nh, ns)). Modified (path_join dir p) oh nh os ns)
         (filter (\<lambda>((p, oh, os), (q, nh, ns)). q = p \<and> oh \<noteq> nh) (List.product watched current))"
    unfolding nested_if_Nil
    by (rule comprehension_pairs[where f = ?f and P = ?P and ys = current and xs = watched])
  have s: "{x \<in> set (List.product watched current).
             (\<lambda>((p, oh, os), (q, nh, ns)). q = p \<and> oh \<noteq> nh) x}
         = {((p, oh, os), (q, nh, ns)).
              (p, oh, os) \<in> set watched \<and> (q, nh, ns) \<in> set current \<and> q = p \<and> oh \<noteq> nh}"
    by auto
  show ?thesis
    unfolding l mset_map_filter_items[OF d] s ..
qed

lemma mset_detect_changes_items:
  assumes "snapshot_ok watched" and "snapshot_ok current"
  shows "mset (detect_changes_directory path_join dir watched current) =
       image_mset (\<lambda>(p, oh, os). Deleted (path_join dir p) oh os)
           (mset_set {(p, oh, os). (p, oh, os) \<in> set watched \<and> p \<notin> fst ` set current})
     + image_mset (\<lambda>((p, oh, os), (q, nh, ns)). Modified (path_join dir p) oh nh os ns)
           (mset_set {((p, oh, os), (q, nh, ns)).
              (p, oh, os) \<in> set watched \<and> (q, nh, ns) \<in> set current \<and> q = p \<and> oh \<noteq> nh})
     + image_mset (\<lambda>(p, nh, ns). Created (path_join dir p) nh ns)
           (mset_set {(p, nh, ns). (p, nh, ns) \<in> set current \<and> p \<notin> fst ` set watched})"
proof -
  have dw: "distinct (map fst watched)" and dc: "distinct (map fst current)"
    using assms by (simp_all add: snapshot_ok_def)
  show ?thesis
    unfolding mset_detect_changes_directory[OF assms(2)]
      mset_items_deleted[OF dw] mset_items_modified[OF dw dc] mset_items_created[OF dc] ..
qed

lemma detect_changes_swap:
  "a \<noteq> b \<Longrightarrow>
   detect_changes_directory path_join dir [(a, h, s)] [(b, h', s')] =
     [Deleted (path_join dir a) h s, Created (path_join dir b) h' s']"
  by (simp add: detect_changes_directory_def)


text \<open>
  Claim C6. In directory mode, for a baseline and a live snapshot (dicts, so with
  distinct keys), the entries \<^verbatim>\<open>detect_changes\<close> returns are exactly: a \<^verbatim>\<open>deleted\<close> entry
  for each baseline path absent from the live snapshot, a \<^verbatim>\<open>modified\<close> entry with both
  digests and both sizes for each baseline path present in the live snapshot with a
  different digest, and a \<^verbatim>\<open>created\<close> entry for each live path absent from the baseline.
  Counted with repetitions, the entries are one for each such item of the baseline, of
  the two snapshots, and of the live snapshot, whatever the paths the join gives them.
  In particular a baseline with the one file \<open>a\<close> and a live snapshot with the one
  file \<open>b\<close> yield the deleted entry of \<open>a\<close> followed by the created entry of \<open>b\<close>.
\<close>

theorem detect_changes_three_way:
  assumes "snapshot_ok watched" and "snapshot_ok (snapshot_directory reads dir)"
  shows "set (detect_changes path_join reads watched (Some dir)) =
           {Deleted (path_join dir p) oh os | p oh os.
              (p, oh, os) \<in> set watched \<and> p \<notin> fst ` set (snapshot_directory reads dir)}
         \<union> {Modified (path_join dir p) oh nh os ns | p oh nh os ns.
              (p, oh, os) \<in> set watched \<and> (p, nh, ns) \<in> set (snapshot_directory reads dir)
              \<and> oh \<noteq> nh}
         \<union> {Created (path_join dir p) nh ns | p nh ns.
              (p, nh, ns) \<in> set (snapshot_directory reads dir) \<and> p \<notin> fst ` set watched}
       \<and> mset (detect_changes path_join reads watched (Some dir)) =
           image_mset (\<lambda>(p, oh, os). Deleted (path_join dir p) oh os)
             (mset_set {(p, oh, os).
                (p, oh, os) \<in> set watched \<and> p \<notin> fst ` set (snapshot_directory reads dir)})
         + image_mset (\<lambda>((p, oh, os), (q, nh, ns)). Modified (path_join dir p) oh nh os ns)
             (mset_set {((p, oh, os), (q, nh, ns)).
                (p, oh, os) \<in> set watched \<and> (q, nh, ns) \<in> set (snapshot_directory reads dir)
                \<and> q = p \<and> oh \<noteq> nh})
         + image_mset (\<lambda>(p, nh, ns). Created (path_join dir p) nh ns)
             (mset_set {(p, nh, ns).
                (p, nh, ns) \<in> set (snapshot_directory reads dir) \<and> p \<notin> fst ` set watched})
       \<and> (\<forall>a h s b h' s'.
             watched = [(a, h, s)] \<and> snapshot_directory reads dir = [(b, h', s')] \<and> a \<noteq> b \<longrightarrow>
             detect_changes path_join reads watched (Some dir) =
               [Deleted (path_join dir a) h s, Created (path_join dir b) h' s'])"
proof (intro conjI allI impI)
  show "set (detect_changes path_join reads watched (Some dir)) =
           {Deleted (path_join dir p) oh os | p oh os.
              (p, oh, os) \<in> set watched \<and> p \<notin> fst ` set (snapshot_directory reads dir)}
         \<union> {Modified (path_join dir p) oh nh os ns | p oh nh os ns.
              (p, oh, os) \<in> set watched \<and> (p, nh, ns) \<in> set (snapshot_directory reads dir)
              \<and> oh \<noteq> nh}
         \<union> {Created (path_join dir p) nh ns | p nh ns.
              (p, nh, ns) \<in> set (snapshot_directory reads dir) \<and> p \<notin> fst ` set watched}"
    using set_detect_changes_directory[OF assms(2), of path_join dir watched]
    by (simp only: detect_changes_def option.case)
next
  show "mset (detect_changes path_join reads watched (Some dir)) =
           image_mset (\<lambda>(p, oh, os). Deleted (path_join dir p) oh os)
             (mset_set {(p, oh, os).
                (p, oh, os) \<in> set watched \<and> p \<notin> fst ` set (snapshot_directory reads dir)})
         + image_mset (\<lambda>((p, oh, os), (q, nh, ns)). Modified (path_join dir p) oh nh os ns)
             (mset_set {((p, oh, os), (q, nh, ns)).
                (p, oh, os) \<in> set watched \<and> (q, nh, ns) \<in> set (snapshot_directory reads dir)
                \<and> q = p \<and> oh \<noteq> nh})
         + image_mset (\<lambda>(p, nh, ns). Created (path_join dir p) nh ns)
             (mset_set {(p, nh, ns).
                (p, nh, ns) \<in> set (snapshot_directory reads dir) \<and> p \<notin> fst ` set watched})"
    using mset_detect_changes_items[OF assms, of path_join dir]
    by (simp only: detect_changes_def option.case)
next
  fix a h s b h' s'
  assume "watched = [(a, h, s)] \<and> snapshot_directory reads dir = [(b, h', s')] \<and> a \<noteq> b"
  then show "detect_changes path_join reads watched (Some dir) =
               [Deleted (path_join dir a) h s, Created (path_join dir b) h' s']"
    by (simp add: detect_changes_def detect_changes_swap)
qed

lemma tracker_snapshot:
  "snapshot_directory tracker_disk ''/tmp/watch'' =
     [(''c.txt'', Some ''8277e091'', Some 12), (''b.txt'', Some ''92eb5ffe'', Some 3)]"
  by (simp add: tracker_disk_def)

lemma tracker_detect:
  "detect_changes tracker_join tracker_disk tracker_baseline (Some ''/tmp/watch'') =
     [Deleted ''/tmp/watch/a.txt'' (Some ''0cc175b9'') (Some 15),
      Modified ''/tmp/watch/c.txt'' (Some ''4a8a08f0'') (Some ''8277e091'') (Some 10) (Some 12),
      Created ''/tmp/watch/b.txt'' (Some ''92eb5ffe'') (Some 3)]"
  by (simp add: detect_changes_def detect_changes_directory_def tracker_snapshot
        tracker_baseline_def tracker_join_def)

lemma swap_snapshot:
  "snapshot_directory tracker_disk ''/tmp/swap'' = [(''b.txt'', Some ''92eb5ffe'', Some 3)]"
  by (simp add: tracker_disk_def)

text \<open>
  The example yields one deleted entry for \<^verbatim>\<open>a.txt\<close>, one modified entry for \<^verbatim>\<open>c.txt\<close>
  and one created entry for \<^verbatim>\<open>b.txt\<close>; in the directory where \<^verbatim>\<open>b.txt\<close> took the place
  of \<^verbatim>\<open>a.txt\<close>, it yields the deleted entry of the one and the created entry of the other.
\<close>

theorem detect_changes_three_way_witness:
  "detect_changes tracker_join tracker_disk tracker_baseline (Some ''/tmp/watch'') =
     [Deleted ''/tmp/watch/a.txt'' (Some ''0cc175b9'') (Some 15),
      Modified ''/tmp/watch/c.txt'' (Some ''4a8a08f0'') (Some ''8277e091'') (Some 10) (Some 12),
      Created ''/tmp/watch/b.txt'' (Some ''92eb5ffe'') (Some 3)]
   \<and> Deleted ''/tmp/watch/a.txt'' (Some ''0cc175b9'') (Some 15)
        \<in> set (detect_changes tracker_join tracker_disk tracker_baseline (Some ''/tmp/watch''))
   \<and> Created ''/tmp/watch/b.txt'' (Some ''92eb5ffe'') (Some 3)
        \<in> set (detect_changes tracker_join tracker_disk tracker_baseline (Some ''/tmp/watch''))
   \<and> size (mset (detect_changes tracker_join tracker_disk tracker_baseline
                    (Some ''/tmp/watch''))) = 3
   \<and> detect_changes tracker_join tracker_disk swap_baseline (Some ''/tmp/swap'') =
       [Deleted ''/tmp/swap/a.txt'' (Some ''0cc175b9'') (Some 15),
        Created ''/tmp/swap/b.txt'' (Some ''92eb5ffe'') (Some 3)]"
proof -
  have w: "snapshot_ok tracker_baseline"
    by (simp add: snapshot_ok_def tracker_baseline_def)
  have c: "snapshot_ok (snapshot_directory tracker_disk ''/tmp/watch'')"
    by (simp add: snapshot_ok_def tracker_snapshot)
  note inst = detect_changes_three_way[OF w c, of tracker_join]
  from inst have s:
    "set (detect_changes tracker_join tracker_disk tracker_baseline (Some ''/tmp/watch'')) =
           {Deleted (tracker_join ''/tmp/watch'' p) oh os | p oh os.
              (p, oh, os) \<in> set tracker_baseline
              \<and> p \<notin> fst ` set (snapshot_directory tracker_disk ''/tmp/watch'')}
         \<union> {Modified (tracker_join ''/tmp/watch'' p) oh nh os ns | p oh nh os ns.
              (p, oh, os) \<in> set tracker_baseline
              \<and> (p, nh, ns) \<in> set (snapshot_directory tracker_disk ''/tmp/watch'')
              \<and> oh \<noteq> nh}
         \<union> {Created (tracker_join ''/tmp/watch'' p) nh ns | p nh ns.
              (p, nh, ns) \<in> set (snapshot_directory tracker_disk ''/tmp/watch'')
              \<and> p \<notin> fst ` set tracker_baseline}"
    by (rule conjunct1)
  have del: "Deleted ''/tmp/watch/a.txt'' (Some ''0cc175b9'') (Some 15)
        \<in> set (detect_changes tracker_join tracker_disk tracker_baseline (Some ''/tmp/watch''))"
    unfolding s
    by (intro UnI1 CollectI exI[of _ "''a.txt''"] exI[of _ "Some ''0cc175b9''"]
          exI[of _ "Some 15"])
       (simp add: tracker_baseline_def tracker_snapshot tracker_join_def)
  have cre: "Created ''/tmp/watch/b.txt'' (Some ''92eb5ffe'') (Some 3)
        \<in> set (detect_changes tracker_join tracker_disk tracker_baseline (Some ''/tmp/watch''))"
    unfolding s
    by (intro UnI2 CollectI exI[of _ "''b.txt''"] exI[of _ "Some ''92eb5ffe''"]
          exI[of _ "Some 3"])
       (simp add: tracker_baseline_def tracker_snapshot tracker_join_def)
  have sz: "size (mset (detect_changes tracker_join tracker_disk tracker_baseline
                    (Some ''/tmp/watch''))) = 3"
    by (simp add: tracker_detect)
  have w2: "snapshot_ok swap_baseline"
    by (simp add: snapshot_ok_def swap_baseline_def)
  have c2: "snapshot_ok (snapshot_directory tracker_disk ''/tmp/swap'')"
    by (simp add: snapshot_ok_def swap_snapshot)
  have ab: "swap_baseline = [(''a.txt'', Some ''0cc175b9'', Some 15)]
            \<and> snapshot_directory tracker_disk ''/tmp/swap'' = [(''b.txt'', Some ''92eb5ffe'', Some 3)]
            \<and> ''a.txt'' \<noteq> ''b.txt''"
    by (simp add: swap_baseline_def swap_snapshot)
  from detect_changes_three_way[OF w2 c2, of tracker_join]
  have "\<forall>a h s b h' s'.
             swap_baseline = [(a, h, s)]
             \<and> snapshot_directory tracker_disk ''/tmp/swap'' = [(b, h', s')] \<and> a \<noteq> b \<longrightarrow>
             detect_changes tracker_join tracker_disk swap_baseline (Some ''/tmp/swap'') =
               [Deleted (tracker_join ''/tmp/swap'' a) h s,
                Created (tracker_join ''/tmp/swap'' b) h' s']"
    by (rule conjunct2[OF conjunct2])
  from this[rule_format, OF ab]
  have swap: "detect_changes tracker_join tracker_disk swap_baseline (Some ''/tmp/swap'') =
       [Deleted ''/tmp/swap/a.txt'' (Some ''0cc175b9'') (Some 15),
        Created ''/tmp/swap/b.txt'' (Some ''92eb5ffe'') (Some 3)]"
    by (simp add: tracker_join_def)
  from tracker_detect del cre sz swap show ?thesis by (intro conjI)
qed

end
